theory Spec2Isabelle
  imports Complex_Main
begin

section \<open>JavaScript values\<close>

text \<open>
  Numbers are modelled as mathematical reals: \<open>Math.exp\<close>, \<open>Math.log2\<close> and the
  arithmetic of the score are the exact functions, not their IEEE-754 roundings, and
  there is no NaN. \<open>Math.round x\<close> is \<open>\<lfloor>x + 1/2\<rfloor>\<close>, which is HOL's \<open>round\<close>.
\<close>

datatype jsval =
    JUndefined
  | JNull
  | JNum real
  | JStr string
  | JBool bool
  | JArr "jsval list"
  | JObj "(string \<times> jsval) list"

text \<open>The operator \<open>a ?? b\<close>: \<open>b\<close> when \<open>a\<close> is null or undefined.\<close>

fun nullish :: "jsval \<Rightarrow> jsval \<Rightarrow> jsval" where
  "nullish JUndefined b = b"
| "nullish JNull b = b"
| "nullish a b = a"

section \<open>Findings (popup.js, api-service.js)\<close>

record node =
  target :: "string list option"
  html :: "string option"

record prediction =
  predicted_score :: jsval
  score :: jsval
  prediction_probability :: jsval
  confidence :: jsval
  probabilities :: jsval
  originalImpact :: string

text \<open>
  A finding as axe-core reports it, with the enrichment \<open>mlAnalysis\<close> that
  \<open>enhanceWithML\<close> adds (absent on a raw finding). \<open>impact\<close> is the string the
  lookups of the source use as a key; an absent impact is the key \<open>''undefined''\<close>,
  as JavaScript's property lookup has it. The fields \<open>id\<close> and \<open>help\<close> of the source
  are \<open>vid\<close> and \<open>help_text\<close>.
\<close>

record explanation =
  what :: "string option"
  who :: "string list option"
  why :: "string option"
  how :: "string list option"
  whatsWrong :: "string option"
  whoThisAffects :: "string option"
  whyItMatters :: "string option"
  whatToFix :: "string option"
  howToFix :: "string option"

record severityExplanation =
  sev_explanation :: jsval
  keyFactors :: jsval
  confidenceNote :: jsval

record top_feature =
  feature :: "string option"
  shap_value :: real

record shap_reason =
  reason_feature :: string
  direction :: string
  contribution :: real

record shap_info =
  shap_values :: jsval
  topFeatures :: "top_feature list"
  reasons :: "shap_reason list"

record mlAnalysis =
  prediction :: "prediction option"
  explanation :: "explanation option"
  severity :: "severityExplanation option"
  shap :: "shap_info option"

record violation =
  vid :: "string option"
  impact :: string
  description :: "string option"
  help_text :: "string option"
  helpUrl :: "string option"
  tags :: "string list option"
  nodes :: "node list option"
  mlAnalysis :: "mlAnalysis option"

section \<open>Weighted score (popup.js)\<close>

definition mapImpactToScore :: "string \<Rightarrow> real" where
  "mapImpactToScore i =
     (case map_of [(''critical'', 5), (''serious'', 4), (''moderate'', 3), (''minor'', 2)] i of
        Some s \<Rightarrow> s
      | None \<Rightarrow> 3)"

text \<open>\<open>v.mlAnalysis?.prediction\<close>: absent when either link of the chain is.\<close>

definition prediction_of :: "violation \<Rightarrow> prediction option" where
  "prediction_of v = (case mlAnalysis v of None \<Rightarrow> None | Some a \<Rightarrow> prediction a)"

definition chain :: "(prediction \<Rightarrow> jsval) \<Rightarrow> violation \<Rightarrow> jsval" where
  "chain f v = (case prediction_of v of None \<Rightarrow> JUndefined | Some p \<Rightarrow> f p)"

definition getPredictedSeverityScore :: "violation \<Rightarrow> real" where
  "getPredictedSeverityScore v =
     (case nullish (chain predicted_score v) (chain score v) of
        JNum mlScore \<Rightarrow> mlScore
      | _ \<Rightarrow> mapImpactToScore (impact v))"

definition getPredictionConfidence :: "violation \<Rightarrow> real" where
  "getPredictionConfidence v =
     (case nullish (chain prediction_probability v) (chain confidence v) of
        JNum conf \<Rightarrow> max 0 (min 1 conf)
      | _ \<Rightarrow> 0.75)"

definition severityWeight :: "real \<Rightarrow> real" where
  "severityWeight score2to5 =
     (case map_of [(2, 2), (3, 5), (4, 10), (5, 18)] score2to5 of
        Some w \<Rightarrow> w
      | None \<Rightarrow> 5)"

text \<open>\<open>n || 1\<close> replaces the falsy number 0 by 1.\<close>

definition instanceMultiplier :: "real \<Rightarrow> real" where
  "instanceMultiplier n =
     (let capped = min (max (if n = 0 then 1 else n) 1) 20
      in 1 + log 2 capped / 3)"

text \<open>The local constant \<open>capped\<close> of \<open>instanceMultiplier\<close>.\<close>

definition capped :: "real \<Rightarrow> real" where
  "capped n = min (max (if n = 0 then 1 else n) 1) 20"

definition confidenceMultiplier :: "real \<Rightarrow> real" where
  "confidenceMultiplier c = 0.6 + 0.4 * c"

text \<open>\<open>v.nodes?.length || 1\<close>.\<close>

definition instanceCount :: "violation \<Rightarrow> real" where
  "instanceCount v =
     (case nodes v of
        None \<Rightarrow> 1
      | Some ns \<Rightarrow> if length ns = 0 then 1 else real (length ns))"

text \<open>The body of the \<open>for\<close> loop: the penalty \<open>p\<close> of one finding.\<close>

definition penalty :: "violation \<Rightarrow> real" where
  "penalty v =
     (let s = getPredictedSeverityScore v;
          c = getPredictionConfidence v;
          n = instanceCount v
      in severityWeight s * instanceMultiplier n * confidenceMultiplier c)"

text \<open>The loop accumulates \<open>totalPenalty\<close> from left to right, starting at 0.\<close>

definition totalPenalty :: "violation list \<Rightarrow> real" where
  "totalPenalty enhancedViolations = foldl (\<lambda>total v. total + penalty v) 0 enhancedViolations"

text \<open>The value \<open>score\<close> before clamping and rounding.\<close>

definition rawScore :: "violation list \<Rightarrow> real" where
  "rawScore enhancedViolations = 100 * exp (- totalPenalty enhancedViolations / 65)"

definition computeAccessibilityScore0to100 :: "violation list \<Rightarrow> int" where
  "computeAccessibilityScore0to100 enhancedViolations =
     round (max 0 (min 100 (rawScore enhancedViolations)))"

definition estimateUserImpactFromSeverity :: "violation \<Rightarrow> real" where
  "estimateUserImpactFromSeverity v =
     (case map_of [(2, 15), (3, 35), (4, 60), (5, 85)] (getPredictedSeverityScore v) of
        Some p \<Rightarrow> p
      | None \<Rightarrow> 35)"

subsection \<open>The formulas of the specification\<close>

text \<open>
  The scoring formulas as the specification words them, to be compared with the
  functions above: a clamp of the instance count to [1, 20], a sum of the penalties.
\<close>

definition clamp :: "real \<Rightarrow> real \<Rightarrow> real \<Rightarrow> real" where
  "clamp x lo hi = (if x < lo then lo else if hi < x then hi else x)"

definition spec_severityWeight :: "real \<Rightarrow> real" where
  "spec_severityWeight s =
     (if s = 2 then 2 else if s = 3 then 5 else if s = 4 then 10 else if s = 5 then 18 else 5)"

definition spec_instanceMultiplier :: "real \<Rightarrow> real" where
  "spec_instanceMultiplier n = 1 + log 2 (clamp n 1 20) / 3"

definition spec_confidenceMultiplier :: "real \<Rightarrow> real" where
  "spec_confidenceMultiplier c = 0.6 + 0.4 * c"

definition spec_totalPenalty :: "violation list \<Rightarrow> real" where
  "spec_totalPenalty vs =
     (\<Sum>v\<leftarrow>vs. spec_severityWeight (getPredictedSeverityScore v)
                * spec_instanceMultiplier (instanceCount v)
                * spec_confidenceMultiplier (getPredictionConfidence v))"

definition spec_score :: "violation list \<Rightarrow> int" where
  "spec_score vs = round (clamp (100 * exp (- spec_totalPenalty vs / 65)) 0 100)"

subsection \<open>Example findings\<close>

text \<open>
  An enriched finding with the given impact, number of instances, predicted severity
  and confidence, every instance with the one selector \<open>sel\<close>.
\<close>

definition example_node :: "string \<Rightarrow> node" where
  "example_node sel = \<lparr>target = Some [sel], html = Some ''<img>''\<rparr>"

definition example_prediction :: "string \<Rightarrow> real \<Rightarrow> real \<Rightarrow> prediction" where
  "example_prediction i s c =
     \<lparr>predicted_score = JUndefined, score = JNum s,
      prediction_probability = JUndefined, confidence = JNum c,
      probabilities = JUndefined, originalImpact = i\<rparr>"

definition example_finding :: "string \<Rightarrow> nat \<Rightarrow> real \<Rightarrow> real \<Rightarrow> violation" where
  "example_finding i n s c =
     \<lparr>vid = Some ''image-alt'', impact = i, description = Some ''Images must have alternate text'',
      help_text = Some ''Add alternate text'', helpUrl = None, tags = Some [''wcag2a''],
      nodes = Some (replicate n (example_node ''img'')),
      mlAnalysis = Some \<lparr>prediction = Some (example_prediction i s c), explanation = None,
                          severity = None, shap = None\<rparr>\<rparr>"

definition example_critical :: violation where
  "example_critical = example_finding ''critical'' 1 5 1"

definition example_minor_50 :: violation where
  "example_minor_50 = example_finding ''minor'' 1 2 0.5"

definition example_minor_51 :: violation where
  "example_minor_51 = example_finding ''minor'' 1 2 0.51"

definition example_moderate_50 :: violation where
  "example_moderate_50 = example_finding ''moderate'' 1 3 0.5"

definition example_serious_no_nodes :: violation where
  "example_serious_no_nodes = (example_finding ''serious'' 0 4 0.8)\<lparr>nodes := None\<rparr>"

text \<open>The three findings of the specification's end-to-end example.\<close>

definition example_findings :: "violation list" where
  "example_findings =
     [example_finding ''critical'' 1 5 0.9,
      example_finding ''moderate'' 5 3 0.8,
      example_finding ''minor'' 1 2 0.5]"

section \<open>Client of the prediction and explanation services (api-service.js)\<close>

text \<open>
  The outcome of one \<open>fetch\<close> followed by \<open>response.json()\<close>: the request is
  rejected, or a response arrives with its \<open>ok\<close> flag and its body, \<open>None\<close> when the
  body does not parse. What the services answer is an input of the model.
\<close>

datatype 'a fetch_outcome = NetworkError | Response bool "'a option"

text \<open>The body of \<open>/predict-with-shap\<close>; an absent object is \<open>None\<close>.\<close>

record wire_prediction =
  wire_predicted_score :: jsval
  wire_prediction_probability :: jsval
  all_probabilities :: jsval

record wire_explanation =
  wire_shap_values :: jsval
  top_features :: "top_feature list option"
  base_value :: jsval

record ml_data =
  data_prediction :: "wire_prediction option"
  data_explanation :: "wire_explanation option"

record mlPrediction =
  predictedScore :: jsval
  mlp_confidence :: jsval
  allProbabilities :: jsval
  shapValues :: jsval
  mlp_topFeatures :: "top_feature list option"
  baseValue :: jsval

text \<open>
  Every exception inside \<open>getPredictionWithShap\<close> is caught and turned into \<open>null\<close>:
  a rejected request, a status that is not ok, a body that does not parse, and the
  TypeError of reading a field of an absent \<open>data.prediction\<close> or \<open>data.explanation\<close>.
\<close>

definition getPredictionWithShap :: "ml_data fetch_outcome \<Rightarrow> mlPrediction option" where
  "getPredictionWithShap r =
     (case r of
        NetworkError \<Rightarrow> None
      | Response ok body \<Rightarrow>
          if \<not> ok then None
          else (case body of
                  None \<Rightarrow> None
                | Some data \<Rightarrow>
                    (case data_prediction data of
                       None \<Rightarrow> None
                     | Some p \<Rightarrow>
                         (case data_explanation data of
                            None \<Rightarrow> None
                          | Some e \<Rightarrow>
                              Some \<lparr>predictedScore = wire_predicted_score p,
                                    mlp_confidence = wire_prediction_probability p,
                                    allProbabilities = all_probabilities p,
                                    shapValues = wire_shap_values e,
                                    mlp_topFeatures = top_features e,
                                    baseValue = base_value e\<rparr>))))"

text \<open>The body of \<open>/api/llm_reasons\<close>, with its five numbered keys.\<close>

record llm_data =
  k1_whats_wrong :: "string option"
  k2_who_this_affects :: "string option"
  k3_why_it_matters :: "string option"
  k4_what_to_fix :: "string option"
  k5_how_to_fix :: "string option"

definition getLLMExplanation :: "llm_data fetch_outcome \<Rightarrow> explanation option" where
  "getLLMExplanation r =
     (case r of
        NetworkError \<Rightarrow> None
      | Response ok body \<Rightarrow>
          if \<not> ok then None
          else (case body of
                  None \<Rightarrow> None
                | Some data \<Rightarrow>
                    Some \<lparr>what = None, who = None, why = None, how = None,
                          whatsWrong = k1_whats_wrong data,
                          whoThisAffects = k2_who_this_affects data,
                          whyItMatters = k3_why_it_matters data,
                          whatToFix = k4_what_to_fix data,
                          howToFix = k5_how_to_fix data\<rparr>))"

record sev_data =
  severity_explanation :: jsval
  key_factors :: jsval
  confidence_note :: jsval

text \<open>
  \<open>getSeverityExplanation\<close> throws, and so returns \<open>null\<close>, before any request when
  \<open>topFeatures\<close> is absent (\<open>.map\<close> of undefined) or when \<open>Object.entries\<close> is given an
  undefined or null \<open>allProbabilities\<close>.
\<close>

definition getSeverityExplanation ::
  "mlPrediction \<Rightarrow> sev_data fetch_outcome \<Rightarrow> severityExplanation option" where
  "getSeverityExplanation mlp r =
     (case mlp_topFeatures mlp of
        None \<Rightarrow> None
      | Some fs \<Rightarrow>
          if allProbabilities mlp = JUndefined \<or> allProbabilities mlp = JNull then None
          else (case r of
                  NetworkError \<Rightarrow> None
                | Response ok body \<Rightarrow>
                    if \<not> ok then None
                    else (case body of
                            None \<Rightarrow> None
                          | Some data \<Rightarrow>
                              Some \<lparr>sev_explanation = severity_explanation data,
                                    keyFactors = key_factors data,
                                    confidenceNote = confidence_note data\<rparr>)))"

definition humanizeFeatureName :: "string \<Rightarrow> string" where
  "humanizeFeatureName featureName =
     (case map_of
        [(''contrast_ratio'', ''Color contrast ratio''),
         (''has_alt_attr'', ''Presence of alt attribute''),
         (''font_size'', ''Font size''),
         (''tag_enc'', ''HTML element type''),
         (''num_images'', ''Number of images''),
         (''has_aria_label'', ''ARIA label present''),
         (''word_count'', ''Text length''),
         (''is_button_or_link'', ''Interactive element type'')] featureName of
        Some name \<Rightarrow> name
      | None \<Rightarrow> map (\<lambda>c. if c = CHR ''_'' then CHR '' '' else c) featureName)"

text \<open>
  \<open>_convertShapToReasons\<close>; \<open>None\<close> is the TypeError of \<open>.slice\<close> on an absent
  list or of \<open>.replace\<close> on an absent feature name.
\<close>

fun reasons_of :: "top_feature list \<Rightarrow> shap_reason list option" where
  "reasons_of [] = Some []"
| "reasons_of (f # fs) =
     (case feature f of
        None \<Rightarrow> None
      | Some name \<Rightarrow>
          (case reasons_of fs of
             None \<Rightarrow> None
           | Some rs \<Rightarrow>
               Some (\<lparr>reason_feature = humanizeFeatureName name,
                      direction = (if shap_value f > 0 then ''increases'' else ''decreases''),
                      contribution = \<bar>shap_value f\<bar>\<rparr> # rs)))"

definition convertShapToReasons :: "top_feature list option \<Rightarrow> shap_reason list option" where
  "convertShapToReasons features =
     (case features of None \<Rightarrow> None | Some fs \<Rightarrow> reasons_of (take 5 fs))"

definition api_mapImpactToScore :: "string \<Rightarrow> real" where
  "api_mapImpactToScore i =
     (case map_of [(''critical'', 5), (''serious'', 4), (''moderate'', 3), (''minor'', 2)] i of
        Some s \<Rightarrow> s
      | None \<Rightarrow> 3)"

text \<open>\<open>a || b\<close> on an optional string: an absent or empty string is falsy.\<close>

definition or_else :: "string option \<Rightarrow> string \<Rightarrow> string" where
  "or_else a b = (case a of None \<Rightarrow> b | Some x \<Rightarrow> if x = [] then b else x)"

definition createFallbackExplanation :: "violation \<Rightarrow> explanation" where
  "createFallbackExplanation v =
     \<lparr>what = None, who = None, why = None, how = None,
      whatsWrong = Some (or_else (description v) ''Accessibility issue detected''),
      whoThisAffects = Some ''Users with disabilities'',
      whyItMatters = Some ''This violates WCAG accessibility guidelines'',
      whatToFix = Some (or_else (help_text v) ''Fix the reported issue''),
      howToFix = Some ''Review WCAG documentation for guidance''\<rparr>"

text \<open>
  The \<open>mlEnhanced\<close> object of \<open>_createFallbackEnhancement\<close>. It has the four fields
  of \<open>mlAnalysis\<close>, and the caller copies them one by one, so the model uses one record
  type for both; the spread copy of the finding around it is not read by the caller.
\<close>

definition createFallbackEnhancement :: "violation \<Rightarrow> mlAnalysis" where
  "createFallbackEnhancement v =
     \<lparr>prediction = Some \<lparr>predicted_score = JUndefined,
                          score = JNum (api_mapImpactToScore (impact v)),
                          prediction_probability = JUndefined,
                          confidence = JNum 0.5,
                          probabilities = JObj [],
                          originalImpact = impact v\<rparr>,
      explanation = Some (createFallbackExplanation v),
      severity = None,
      shap = Some \<lparr>shap_values = JObj [], topFeatures = [], reasons = []\<rparr>\<rparr>"

record net_responses =
  ml_response :: "ml_data fetch_outcome"
  llm_response :: "llm_data fetch_outcome"
  sev_response :: "sev_data fetch_outcome"

text \<open>The enrichment built from a prediction that arrived.\<close>

definition remoteEnhancement ::
  "violation \<Rightarrow> mlPrediction \<Rightarrow> top_feature list \<Rightarrow> shap_reason list
   \<Rightarrow> explanation option \<Rightarrow> severityExplanation option \<Rightarrow> mlAnalysis" where
  "remoteEnhancement v mlp fs shapReasons llmExplanation severityExpl =
     \<lparr>prediction = Some \<lparr>predicted_score = JUndefined,
                          score = predictedScore mlp,
                          prediction_probability = JUndefined,
                          confidence = mlp_confidence mlp,
                          probabilities = allProbabilities mlp,
                          originalImpact = impact v\<rparr>,
      explanation = Some (case llmExplanation of
                            Some e \<Rightarrow> e
                          | None \<Rightarrow> createFallbackExplanation v),
      severity = severityExpl,
      shap = Some \<lparr>shap_values = shapValues mlp, topFeatures = fs, reasons = shapReasons\<rparr>\<rparr>"

text \<open>
  \<open>enhanceViolation\<close>: a failed prediction, or an exception anywhere in the body (the
  TypeError of \<open>_convertShapToReasons\<close>), gives the fallback enhancement; the function
  never throws.
\<close>

definition enhanceViolation :: "violation \<Rightarrow> net_responses \<Rightarrow> mlAnalysis" where
  "enhanceViolation v net =
     (case getPredictionWithShap (ml_response net) of
        None \<Rightarrow> createFallbackEnhancement v
      | Some mlp \<Rightarrow>
          (case convertShapToReasons (mlp_topFeatures mlp) of
             None \<Rightarrow> createFallbackEnhancement v
           | Some shapReasons \<Rightarrow>
               (let llmExplanation = getLLMExplanation (llm_response net);
                    severityExpl = getSeverityExplanation mlp (sev_response net)
                in remoteEnhancement v mlp (case mlp_topFeatures mlp of Some fs \<Rightarrow> fs | None \<Rightarrow> [])
                     shapReasons llmExplanation severityExpl)))"

record health =
  mlApi :: bool
  llmApi :: bool

definition health_ok :: "unit fetch_outcome \<Rightarrow> bool" where
  "health_ok r = (case r of NetworkError \<Rightarrow> False | Response ok body \<Rightarrow> ok)"

definition checkHealth :: "unit fetch_outcome \<Rightarrow> unit fetch_outcome \<Rightarrow> health" where
  "checkHealth mlResponse llmResponse =
     \<lparr>mlApi = health_ok mlResponse, llmApi = health_ok llmResponse\<rparr>"

section \<open>Static fallback and enrichment of a scan (popup.js)\<close>

fun starts_with :: "string \<Rightarrow> string \<Rightarrow> bool" where
  "starts_with s [] = True"
| "starts_with [] (k # ks) = False"
| "starts_with (c # s) (k # ks) = (c = k \<and> starts_with s ks)"

text \<open>\<open>String.prototype.includes\<close>.\<close>

fun js_includes :: "string \<Rightarrow> string \<Rightarrow> bool" where
  "js_includes [] k = (k = [])"
| "js_includes (c # s) k = (starts_with (c # s) k \<or> js_includes s k)"

definition MLModels_mapImpactToScore :: "string \<Rightarrow> real" where
  "MLModels_mapImpactToScore i =
     (case map_of [(''critical'', 5), (''serious'', 4), (''moderate'', 3), (''minor'', 2)] i of
        Some s \<Rightarrow> s
      | None \<Rightarrow> 3)"

definition template :: "string option \<Rightarrow> string list \<Rightarrow> string \<Rightarrow> string list \<Rightarrow> explanation" where
  "template wh wo wy ho =
     \<lparr>what = wh, who = Some wo, why = Some wy, how = Some ho,
      whatsWrong = None, whoThisAffects = None, whyItMatters = None,
      whatToFix = None, howToFix = None\<rparr>"

definition templates :: "(string \<times> explanation) list" where
  "templates =
     [(''image-alt'',
       template (Some ''Images are missing descriptive alternative text'')
         [''Blind users using screen readers'', ''Users with images disabled'']
         ''Screen readers cannot convey image content without alt text''
         [''Add descriptive alt= attributes to images'',
          ''Describe the purpose and content of the image'']),
      (''color-contrast'',
       template (Some ''Text does not have sufficient contrast against its background'')
         [''Low vision users'', ''Color blind users'', ''Users viewing in bright sunlight'']
         ''Insufficient contrast makes text difficult or impossible to read''
         [''Increase contrast ratio to at least 4.5:1'',
          ''Use darker text or lighter backgrounds'']),
      (''link-name'',
       template (Some ''Links lack descriptive text'')
         [''Screen reader users'', ''Keyboard navigation users'']
         ''Generic link text like click here does not provide context''
         [''Use descriptive link text that explains the destination'',
          ''Avoid generic phrases like click here or read more''])]"

text \<open>
  The loop over the templates stops at the first key the finding's id includes. The
  texts of the templates are the source's, without the quotation marks and the
  apostrophe that three of them contain.
\<close>

fun find_template :: "(string \<times> explanation) list \<Rightarrow> string option \<Rightarrow> explanation option" where
  "find_template [] i = None"
| "find_template ((key, val) # ts) i =
     (if (case i of None \<Rightarrow> False | Some s \<Rightarrow> s \<noteq> [] \<and> js_includes s key) then Some val
      else find_template ts i)"

definition generateExplanation :: "violation \<Rightarrow> explanation" where
  "generateExplanation v =
     (case find_template templates (vid v) of
        Some t \<Rightarrow> t
      | None \<Rightarrow>
          template (description v) [''Users with disabilities'']
            ''This violates WCAG accessibility guidelines''
            [''Review WCAG documentation'', ''Fix the reported issue''])"

definition getStaticMLAnalysis :: "violation \<Rightarrow> mlAnalysis" where
  "getStaticMLAnalysis v =
     \<lparr>prediction = Some \<lparr>predicted_score = JUndefined,
                          score = JNum (MLModels_mapImpactToScore (impact v)),
                          prediction_probability = JUndefined,
                          confidence = JNum 0.75,
                          probabilities = JUndefined,
                          originalImpact = impact v\<rparr>,
      explanation = Some (generateExplanation v),
      severity = None,
      shap = Some \<lparr>shap_values = JUndefined, topFeatures = [], reasons = []\<rparr>\<rparr>"

text \<open>
  The callback that \<open>enhanceWithML\<close> maps over the findings. The \<open>catch\<close> around
  \<open>enhanceViolation\<close> is never entered, since \<open>enhanceViolation\<close> does not throw; each
  of the four fields is copied with \<open>|| null\<close>, which leaves an object as it is.
\<close>

definition enhance_one :: "bool \<Rightarrow> net_responses \<Rightarrow> violation \<Rightarrow> violation" where
  "enhance_one useML net v =
     (if useML then
        (let mlEnhanced = enhanceViolation v net
         in v\<lparr>mlAnalysis := Some \<lparr>prediction = prediction mlEnhanced,
                                  explanation = explanation mlEnhanced,
                                  severity = severity mlEnhanced,
                                  shap = shap mlEnhanced\<rparr>\<rparr>)
      else v\<lparr>mlAnalysis := Some (getStaticMLAnalysis v)\<rparr>)"

text \<open>
  \<open>Promise.all\<close> over \<open>n\<close> promises: the result array has one slot for each promise,
  a promise that settles writes the slot of its own index, and the array is delivered
  once every slot is written. \<open>order\<close> lists the indices in the order in which the
  promises settle; \<open>None\<close> is an array that is never delivered.
\<close>

definition settle :: "(nat \<Rightarrow> 'a) \<Rightarrow> 'a option list \<Rightarrow> nat \<Rightarrow> 'a option list" where
  "settle task results i = results[i := Some (task i)]"

definition promise_all :: "nat list \<Rightarrow> nat \<Rightarrow> (nat \<Rightarrow> 'a) \<Rightarrow> 'a list option" where
  "promise_all order n task = those (foldl (settle task) (replicate n None) order)"

record axeResults =
  ax_violations :: "violation list option"
  ax_url :: string

text \<open>
  What \<open>enhanceWithML\<close> reads from outside: the two health probes, the answers of the
  services to the requests of the finding at each index, the order in which the
  promises of the findings settle when requests are made, and the clock
  (\<open>new Date().toISOString()\<close>). No request has a timeout, so the promise of a
  finding whose request is never answered never settles: its index is absent from
  \<open>completion_order\<close>. When the service is not used the callback awaits nothing, and
  the promises are settled, in the order of the findings, when \<open>map\<close> returns.
\<close>

record environment =
  ml_health :: "unit fetch_outcome"
  llm_health :: "unit fetch_outcome"
  responses :: "nat \<Rightarrow> net_responses"
  completion_order :: "nat list"
  now :: string

record report =
  violations :: "violation list"
  report_score :: int
  totalViolations :: nat
  criticalCount :: nat
  seriousCount :: nat
  moderateCount :: nat
  avgImpact :: int
  url :: string
  timestamp :: string
  usingMLAPI :: bool

definition enhanceWithML :: "axeResults \<Rightarrow> environment \<Rightarrow> report option" where
  "enhanceWithML axe env =
     (let vs = (case ax_violations axe of None \<Rightarrow> [] | Some l \<Rightarrow> l);
          apiHealth = checkHealth (ml_health env) (llm_health env);
          useML = mlApi apiHealth
      in case promise_all (if useML then completion_order env else [0..<length vs]) (length vs)
                (\<lambda>i. enhance_one useML (responses env i) (vs ! i)) of
           None \<Rightarrow> None
         | Some enhancedViolations \<Rightarrow>
             (let total = length vs;
                  totalImpact = foldl (\<lambda>sum v. sum + estimateUserImpactFromSeverity v) 0
                                  enhancedViolations
              in Some \<lparr>violations = enhancedViolations,
                       report_score = computeAccessibilityScore0to100 enhancedViolations,
                       totalViolations = total,
                       criticalCount = length (filter (\<lambda>v. impact v = ''critical'') vs),
                       seriousCount = length (filter (\<lambda>v. impact v = ''serious'') vs),
                       moderateCount = length (filter (\<lambda>v. impact v = ''moderate'') vs),
                       avgImpact = (if total > 0 then round (totalImpact / real total) else 0),
                       url = ax_url axe,
                       timestamp = now env,
                       usingMLAPI = useML\<rparr>))"

text \<open>
  The findings that \<open>enhanceWithML\<close> reads (\<open>axeResults.violations || []\<close>), the
  enriched findings in the order of the input, and the object that it returns for a
  list of enriched findings.
\<close>

definition findings :: "axeResults \<Rightarrow> violation list" where
  "findings axe = (case ax_violations axe of None \<Rightarrow> [] | Some l \<Rightarrow> l)"

definition enhanced :: "axeResults \<Rightarrow> environment \<Rightarrow> violation list" where
  "enhanced axe env =
     map (\<lambda>i. enhance_one (health_ok (ml_health env)) (responses env i) (findings axe ! i))
       [0..<length (findings axe)]"

definition report_of :: "axeResults \<Rightarrow> environment \<Rightarrow> violation list \<Rightarrow> report" where
  "report_of axe env enhancedViolations =
     \<lparr>violations = enhancedViolations,
      report_score = computeAccessibilityScore0to100 enhancedViolations,
      totalViolations = length (findings axe),
      criticalCount = length (filter (\<lambda>v. impact v = ''critical'') (findings axe)),
      seriousCount = length (filter (\<lambda>v. impact v = ''serious'') (findings axe)),
      moderateCount = length (filter (\<lambda>v. impact v = ''moderate'') (findings axe)),
      avgImpact =
        (if length (findings axe) > 0
         then round (foldl (\<lambda>sum v. sum + estimateUserImpactFromSeverity v) 0 enhancedViolations
                     / real (length (findings axe)))
         else 0),
      url = ax_url axe,
      timestamp = now env,
      usingMLAPI = health_ok (ml_health env)\<rparr>"


subsection \<open>An example scan\<close>

definition example_axe :: axeResults where
  "example_axe = \<lparr>ax_violations = Some example_findings, ax_url = ''https://example.org/''\<rparr>"

definition example_features :: "top_feature list" where
  "example_features = [\<lparr>feature = Some ''has_alt_attr'', shap_value = 0.4\<rparr>]"

definition example_ml_data :: ml_data where
  "example_ml_data =
     \<lparr>data_prediction =
        Some \<lparr>wire_predicted_score = JNum 4, wire_prediction_probability = JNum 0.9,
              all_probabilities = JObj [(''4'', JNum 0.9), (''3'', JNum 0.1)]\<rparr>,
      data_explanation =
        Some \<lparr>wire_shap_values = JArr [JNum 0.4], top_features = Some example_features,
              base_value = JNum 3\<rparr>\<rparr>"



definition answered :: net_responses where
  "answered = \<lparr>ml_response = Response True (Some example_ml_data),
               llm_response = Response False None, sev_response = NetworkError\<rparr>"

definition unanswered :: net_responses where
  "unanswered = \<lparr>ml_response = NetworkError, llm_response = NetworkError,
                 sev_response = NetworkError\<rparr>"

text \<open>The service is down: the health probe is rejected.\<close>

definition example_env_down :: environment where
  "example_env_down =
     \<lparr>ml_health = NetworkError, llm_health = NetworkError,
      responses = (\<lambda>i. unanswered), completion_order = [2, 0, 1],
      now = ''2026-01-01T00:00:00.000Z''\<rparr>"

text \<open>
  The service is up, the request of the second finding (index 1) fails, and the
  requests complete in the order 2, 0, 1.
\<close>

definition example_env_up :: environment where
  "example_env_up =
     \<lparr>ml_health = Response True (Some ()), llm_health = NetworkError,
      responses = (\<lambda>i. if i = 1 then unanswered else answered),
      completion_order = [2, 0, 1],
      now = ''2026-01-01T00:00:00.000Z''\<rparr>"


section \<open>Overlay (overlay.js)\<close>

record colors =
  border :: string
  background :: string
  label :: string

definition SEVERITY_COLORS :: "string \<Rightarrow> colors option" where
  "SEVERITY_COLORS =
     map_of
       [(''critical'', \<lparr>border = ''#dc2626'', background = ''rgba(220, 38, 38, 0.1)'',
                        label = ''#dc2626''\<rparr>),
        (''serious'', \<lparr>border = ''#ea580c'', background = ''rgba(234, 88, 12, 0.1)'',
                       label = ''#ea580c''\<rparr>),
        (''moderate'', \<lparr>border = ''#f59e0b'', background = ''rgba(245, 158, 11, 0.1)'',
                        label = ''#f59e0b''\<rparr>),
        (''minor'', \<lparr>border = ''#3b82f6'', background = ''rgba(59, 130, 246, 0.1)'',
                     label = ''#3b82f6''\<rparr>)]"

text \<open>
  The page under test is what \<open>document.querySelector\<close> answers for a selector: it
  throws on a selector that does not parse, and returns null or the first element that
  matches. Elements of the page are named by numbers.
\<close>

type_synonym element = nat

datatype query_result = SyntaxError | NoMatch | Found element

type_synonym page = "string \<Rightarrow> query_result"

text \<open>
  The nodes that the overlay creates and appends to \<open>document.body\<close>. Two nodes are the
  same node when their \<open>node_id\<close> is the same. A highlight carries the selector of its
  \<open>dataset\<close>, the element it was created for and its border colour.
\<close>

datatype node_kind = Highlight | InfoIcon | Tooltip | SidePanel

record dom_node =
  node_id :: nat
  kind :: node_kind
  data_selector :: string
  anchored :: "element option"
  border_color :: string

text \<open>
  One entry of the accordion in the side panel. \<open>maxHeight\<close> is the \<open>max-height\<close> of
  its body in pixels (the style \<open>'0'\<close> reads back as \<open>'0px'\<close>, the number 0), and
  \<open>arrow_rotated\<close> says that the arrow is turned by 180 degrees.
\<close>

record entry =
  entry_violation :: violation
  maxHeight :: nat
  arrow_rotated :: bool

datatype panel_list = ErrorMessage | Entries "entry list"

text \<open>
  The variables of the script's closure, the two flags on \<open>window\<close>, the listeners on
  \<open>window\<close> (event type, handler, capture flag), and the part of the document that the
  script writes: the nodes it appended to the body, and inside the side panel its class
  \<open>collapsed\<close> and the content of the violations list. \<open>fresh\<close> numbers the nodes.
\<close>

record overlay =
  body :: "dom_node list"
  overlayElements :: "dom_node list"
  tooltipElement :: "dom_node option"
  sidePanel :: "dom_node option"
  currentViolations :: "violation list"
  accessGuruListenersAdded :: bool
  accessGuruOverlayInjected :: bool
  window_listeners :: "(string \<times> string \<times> bool) list"
  panel_collapsed :: bool
  violations_list :: panel_list
  fresh :: nat

text \<open>The state once the script has run on a page for the first time.\<close>

definition injected :: overlay where
  "injected =
     \<lparr>body = [], overlayElements = [], tooltipElement = None, sidePanel = None,
      currentViolations = [], accessGuruListenersAdded = False,
      accessGuruOverlayInjected = True, window_listeners = [], panel_collapsed = True,
      violations_list = Entries [], fresh = 0\<rparr>"

definition new_node :: "nat \<Rightarrow> node_kind \<Rightarrow> dom_node" where
  "new_node i k = \<lparr>node_id = i, kind = k, data_selector = [], anchored = None, border_color = []\<rparr>"

definition createTooltip :: "overlay \<Rightarrow> overlay" where
  "createTooltip s =
     (case tooltipElement s of
        Some t \<Rightarrow> s
      | None \<Rightarrow>
          (let tooltip = new_node (fresh s) Tooltip
           in s\<lparr>body := body s @ [tooltip], tooltipElement := Some tooltip,
                fresh := Suc (fresh s)\<rparr>))"

text \<open>\<open>document.getElementById('access-guru-side-panel')\<close>.\<close>

definition panel_in_document :: "overlay \<Rightarrow> dom_node option" where
  "panel_in_document s = find (\<lambda>n. kind n = SidePanel) (body s)"

definition createSidePanel :: "overlay \<Rightarrow> overlay" where
  "createSidePanel s =
     (case panel_in_document s of
        Some existing \<Rightarrow> s\<lparr>sidePanel := Some existing\<rparr>
      | None \<Rightarrow>
          (case sidePanel s of
             Some p \<Rightarrow> s
           | None \<Rightarrow>
               (let panel = new_node (fresh s) SidePanel
                in s\<lparr>body := body s @ [panel], sidePanel := Some panel,
                     panel_collapsed := True, violations_list := Entries [],
                     fresh := Suc (fresh s)\<rparr>)))"

definition new_entry :: "violation \<Rightarrow> entry" where
  "new_entry v = \<lparr>entry_violation = v, maxHeight = 0, arrow_rotated = False\<rparr>"

text \<open>
  \<open>populateViolationsList\<close>: without the list element it returns at once; the template
  of an entry reads \<open>SEVERITY_COLORS[violation.impact].border\<close>, which throws for an
  impact that is not a key, and the \<open>catch\<close> then writes an error message in place of
  the entries.
\<close>

definition populateViolationsList :: "violation list \<Rightarrow> overlay \<Rightarrow> overlay" where
  "populateViolationsList vs s =
     (case panel_in_document s of
        None \<Rightarrow> s
      | Some listDiv \<Rightarrow>
          if list_ex (\<lambda>v. SEVERITY_COLORS (impact v) = None) vs
          then s\<lparr>violations_list := ErrorMessage\<rparr>
          else s\<lparr>violations_list := Entries (map new_entry vs)\<rparr>)"

text \<open>
  The click handler of the accordion header with index \<open>idx\<close>; \<open>h\<close> is the
  \<open>scrollHeight\<close> of its body at the time of the click.
\<close>

definition collapse :: "entry \<Rightarrow> entry" where
  "collapse e = e\<lparr>maxHeight := 0, arrow_rotated := False\<rparr>"

definition isExpanded :: "entry \<Rightarrow> bool" where
  "isExpanded e = (maxHeight e \<noteq> 0)"

definition click_entry :: "nat \<Rightarrow> nat \<Rightarrow> entry list \<Rightarrow> entry list" where
  "click_entry idx h es =
     (if idx < length es then
        (if isExpanded (es ! idx) then es[idx := collapse (es ! idx)]
         else (map collapse es)[idx := (es ! idx)\<lparr>maxHeight := h, arrow_rotated := True\<rparr>])
      else es)"

definition click_header :: "nat \<Rightarrow> nat \<Rightarrow> overlay \<Rightarrow> overlay" where
  "click_header idx h s =
     (case violations_list s of
        ErrorMessage \<Rightarrow> s
      | Entries es \<Rightarrow> s\<lparr>violations_list := Entries (click_entry idx h es)\<rparr>)"

text \<open>\<open>nodeInfo.target?.[0] || ''\<close> and \<open>node.target || []\<close>.\<close>

definition target_of :: "node \<Rightarrow> string list" where
  "target_of nd = (case target nd of None \<Rightarrow> [] | Some t \<Rightarrow> t)"

text \<open>
  \<open>createHighlight\<close>; \<open>None\<close> is the TypeError of reading the colours of an impact
  that is not a key of \<open>SEVERITY_COLORS\<close>, thrown before any node is appended.
\<close>

definition createHighlight :: "element \<Rightarrow> violation \<Rightarrow> node \<Rightarrow> overlay \<Rightarrow> overlay option" where
  "createHighlight el v nodeInfo s =
     (case SEVERITY_COLORS (impact v) of
        None \<Rightarrow> None
      | Some c \<Rightarrow>
          (let selector = (case target_of nodeInfo of [] \<Rightarrow> [] | sel # rest \<Rightarrow> sel);
               highlight = \<lparr>node_id = fresh s, kind = Highlight, data_selector = selector,
                            anchored = Some el, border_color = border c\<rparr>;
               infoIcon = \<lparr>node_id = Suc (fresh s), kind = InfoIcon, data_selector = [],
                           anchored = None, border_color = border c\<rparr>
           in Some (s\<lparr>body := body s @ [highlight, infoIcon],
                      overlayElements := overlayElements s @ [highlight, infoIcon],
                      fresh := Suc (Suc (fresh s))\<rparr>)))"

text \<open>
  The callback of \<open>violation.nodes.forEach\<close>: only \<open>target[0]\<close> is looked up, and an
  exception of \<open>querySelector\<close> or of \<open>createHighlight\<close> is caught and logged.
\<close>

definition highlight_node :: "page \<Rightarrow> violation \<Rightarrow> overlay \<Rightarrow> node \<Rightarrow> overlay" where
  "highlight_node pg v s nd =
     (case target_of nd of
        [] \<Rightarrow> s
      | selector # rest \<Rightarrow>
          (case pg selector of
             SyntaxError \<Rightarrow> s
           | NoMatch \<Rightarrow> s
           | Found el \<Rightarrow>
               (case createHighlight el v nd s of
                  None \<Rightarrow> s
                | Some s' \<Rightarrow> s')))"

definition highlight_violation :: "page \<Rightarrow> overlay \<Rightarrow> violation \<Rightarrow> overlay" where
  "highlight_violation pg s v =
     (case nodes v of
        None \<Rightarrow> s
      | Some ns \<Rightarrow> foldl (highlight_node pg v) s ns)"

text \<open>
  \<open>window.addEventListener\<close>: a listener with the same type, handler and capture flag
  as one already registered is discarded.
\<close>

definition addEventListener ::
  "string \<times> string \<times> bool \<Rightarrow> (string \<times> string \<times> bool) list \<Rightarrow> (string \<times> string \<times> bool) list" where
  "addEventListener l ls = (if l \<in> set ls then ls else ls @ [l])"

text \<open>
  \<open>highlightViolations\<close>, the second declaration of the two in the script, which is
  the one in force. \<open>updateSidePanelStats\<close> only writes the text of the statistics and
  is left out.
\<close>

definition highlightViolations :: "page \<Rightarrow> violation list \<Rightarrow> overlay \<Rightarrow> overlay" where
  "highlightViolations pg vs s =
     (if vs = [] then s
      else
        (let s1 = s\<lparr>currentViolations := vs\<rparr>;
             s2 = createSidePanel s1;
             s3 = populateViolationsList vs s2;
             s4 = foldl (highlight_violation pg) s3 vs
         in if \<not> accessGuruListenersAdded s4
            then s4\<lparr>window_listeners :=
                       addEventListener (''scroll'', ''handleScroll'', True)
                         (addEventListener (''resize'', ''handleResize'', False)
                            (window_listeners s4)),
                     accessGuruListenersAdded := True\<rparr>
            else s4))"

text \<open>
  \<open>removeAllOverlays\<close>: a node is taken out of the document when it has a parent;
  the tooltip and the panel variables are cleared only inside that test.
\<close>

definition remove_child :: "dom_node \<Rightarrow> dom_node list \<Rightarrow> dom_node list" where
  "remove_child el b = filter (\<lambda>n. node_id n \<noteq> node_id el) b"

definition has_parent :: "dom_node \<Rightarrow> dom_node list \<Rightarrow> bool" where
  "has_parent el b = (node_id el \<in> node_id ` set b)"

definition removeAllOverlays :: "overlay \<Rightarrow> overlay" where
  "removeAllOverlays s =
     (let s1 = s\<lparr>body := foldl (\<lambda>b el. if has_parent el b then remove_child el b else b)
                            (body s) (overlayElements s),
                 overlayElements := []\<rparr>;
          s2 = (case tooltipElement s1 of
                  None \<Rightarrow> s1
                | Some t \<Rightarrow>
                    if has_parent t (body s1)
                    then s1\<lparr>body := remove_child t (body s1), tooltipElement := None\<rparr>
                    else s1);
          s3 = (case sidePanel s2 of
                  None \<Rightarrow> s2
                | Some p \<Rightarrow>
                    if has_parent p (body s2)
                    then s2\<lparr>body := remove_child p (body s2), sidePanel := None\<rparr>
                    else s2)
      in s3\<lparr>accessGuruListenersAdded := False, accessGuruOverlayInjected := False\<rparr>)"

text \<open>The highlight entries of a state: the highlights in the document.\<close>

definition highlights :: "overlay \<Rightarrow> dom_node list" where
  "highlights s = filter (\<lambda>n. kind n = Highlight) (body s)"

text \<open>The element that the first selector of an instance resolves to, if any.\<close>

definition resolves :: "page \<Rightarrow> node \<Rightarrow> element option" where
  "resolves pg nd =
     (case target_of nd of
        [] \<Rightarrow> None
      | selector # rest \<Rightarrow> (case pg selector of Found el \<Rightarrow> Some el | _ \<Rightarrow> None))"

definition instances :: "violation \<Rightarrow> node list" where
  "instances v = (case nodes v of None \<Rightarrow> [] | Some ns \<Rightarrow> ns)"

text \<open>
  The elements that one finding gets a highlight for: those that the first selectors of
  its instances resolve to, and none when its impact has no colours.
\<close>

definition highlightable :: "page \<Rightarrow> violation \<Rightarrow> element list" where
  "highlightable pg v =
     (if SEVERITY_COLORS (impact v) = None then []
      else List.map_filter (resolves pg) (instances v))"

text \<open>
  \<open>grown s s'\<close>: \<open>s'\<close> is \<open>s\<close> with new nodes, numbered from \<open>fresh s\<close> on, appended
  to the document and to \<open>overlayElements\<close>, and nothing else changed.
\<close>

definition grown :: "overlay \<Rightarrow> overlay \<Rightarrow> bool" where
  "grown s s' \<longleftrightarrow>
     (\<exists>new. body s' = body s @ new \<and> overlayElements s' = overlayElements s @ new
        \<and> (\<forall>n\<in>set new. fresh s \<le> node_id n \<and> node_id n < fresh s')
        \<and> fresh s \<le> fresh s'
        \<and> s' = s\<lparr>body := body s', overlayElements := overlayElements s', fresh := fresh s'\<rparr>)"

text \<open>The indices of the accordion entries whose body is expanded.\<close>

definition entries_of :: "overlay \<Rightarrow> entry list" where
  "entries_of s = (case violations_list s of ErrorMessage \<Rightarrow> [] | Entries es \<Rightarrow> es)"

definition expanded :: "overlay \<Rightarrow> nat list" where
  "expanded s = filter (\<lambda>i. isExpanded (entries_of s ! i)) [0..<length (entries_of s)]"

text \<open>A sequence of clicks on accordion headers, each with its index and scroll height.\<close>

definition click_headers :: "(nat \<times> nat) list \<Rightarrow> overlay \<Rightarrow> overlay" where
  "click_headers cs s = foldl (\<lambda>st (idx, h). click_header idx h st) s cs"

text \<open>The accordion entries of a list that are expanded, by index.\<close>

definition expanded_in :: "entry list \<Rightarrow> nat list" where
  "expanded_in es = filter (\<lambda>i. isExpanded (es ! i)) [0..<length es]"

text \<open>A state in which the overlay has no node in the document and holds none.\<close>

definition clean :: "overlay \<Rightarrow> bool" where
  "clean s \<longleftrightarrow>
     body s = [] \<and> overlayElements s = [] \<and> tooltipElement s = None \<and> sidePanel s = None"

text \<open>What \<open>populateViolationsList\<close> writes into the list element.\<close>

definition listing :: "violation list \<Rightarrow> panel_list" where
  "listing vs =
     (if list_ex (\<lambda>v. SEVERITY_COLORS (impact v) = None) vs then ErrorMessage
      else Entries (map new_entry vs))"

text \<open>
  The pointer enters an info icon, or not: \<open>showTooltip\<close> starts with
  \<open>createTooltip\<close>.
\<close>

definition hover :: "bool \<Rightarrow> overlay \<Rightarrow> overlay" where
  "hover hovered s = (if hovered then createTooltip s else s)"





subsection \<open>An example page\<close>

text \<open>
  A page on which only \<open>#main\<close> matches an element, and a finding with one instance
  whose first selector matches nothing and whose second selector is \<open>#main\<close>.
\<close>

definition example_page :: page where
  "example_page sel = (if sel = ''#main'' then Found 7 else NoMatch)"

definition example_two_selectors :: violation where
  "example_two_selectors =
     (example_finding ''serious'' 0 4 0.8)
       \<lparr>nodes := Some [\<lparr>target = Some [''#gone'', ''#main''], html = Some ''<main>''\<rparr>]\<rparr>"

definition example_resolvable :: violation where
  "example_resolvable =
     (example_finding ''serious'' 0 4 0.8)
       \<lparr>nodes := Some [\<lparr>target = Some [''#main''], html = Some ''<main>''\<rparr>,
                       \<lparr>target = Some [''#gone''], html = Some ''<div>''\<rparr>]\<rparr>"

section \<open>Properties of the weighted score\<close>

subsection \<open>The loop is a sum\<close>

lemma foldl_add_sum_list:
  "foldl (\<lambda>total v. total + f v) a vs = a + (\<Sum>v\<leftarrow>vs. (f v :: real))"
  by (induction vs arbitrary: a) simp_all

lemma totalPenalty_sum: "totalPenalty vs = (\<Sum>v\<leftarrow>vs. penalty v)"
  by (simp add: totalPenalty_def foldl_add_sum_list)

lemma totalPenalty_append:
  "totalPenalty (xs @ v # ys) = totalPenalty xs + penalty v + totalPenalty ys"
  by (simp add: totalPenalty_sum)

lemma sum_list_replicate_real: "sum_list (replicate n (x::real)) = real n * x"
  by (induction n) (simp_all add: algebra_simps)

lemma totalPenalty_replicate: "totalPenalty (replicate n v) = real n * penalty v"
  by (simp add: totalPenalty_sum sum_list_replicate_real)

subsection \<open>The code against the specification's formulas\<close>

lemma severityWeight_spec: "severityWeight s = spec_severityWeight s"
  by (simp add: severityWeight_def spec_severityWeight_def)

lemma instanceMultiplier_spec: "instanceMultiplier n = spec_instanceMultiplier n"
  by (simp add: instanceMultiplier_def spec_instanceMultiplier_def clamp_def Let_def
      min_def max_def)

lemma confidenceMultiplier_spec: "confidenceMultiplier c = spec_confidenceMultiplier c"
  by (simp add: confidenceMultiplier_def spec_confidenceMultiplier_def)

lemma totalPenalty_spec: "totalPenalty vs = spec_totalPenalty vs"
  by (simp add: totalPenalty_sum spec_totalPenalty_def penalty_def Let_def
      severityWeight_spec instanceMultiplier_spec confidenceMultiplier_spec)

lemma clamp_max_min: "lo \<le> hi \<Longrightarrow> clamp x lo hi = max lo (min hi x)"
  by (simp add: clamp_def min_def max_def)

lemma score_spec: "computeAccessibilityScore0to100 vs = spec_score vs"
  by (simp add: computeAccessibilityScore0to100_def spec_score_def rawScore_def
      totalPenalty_spec clamp_max_min)

lemma score_empty: "computeAccessibilityScore0to100 [] = 100"
  by (simp add: computeAccessibilityScore0to100_def rawScore_def totalPenalty_def)

subsection \<open>Bounds on the factors\<close>

lemma severityWeight_values:
  "severityWeight 2 = 2" "severityWeight 3 = 5" "severityWeight 4 = 10" "severityWeight 5 = 18"
  by (simp_all add: severityWeight_def)

lemma severityWeight_bounds: "2 \<le> severityWeight s \<and> severityWeight s \<le> 18"
  by (simp add: severityWeight_def)

lemma severityWeight_mono:
  "s \<in> {2, 3, 4, 5} \<Longrightarrow> s' \<in> {2, 3, 4, 5} \<Longrightarrow> s \<le> s'
   \<Longrightarrow> severityWeight s \<le> severityWeight s'"
  by (auto simp: severityWeight_def)

lemma severityWeight_strict_mono:
  "s \<in> {2, 3, 4, 5} \<Longrightarrow> s' \<in> {2, 3, 4, 5} \<Longrightarrow> s < s'
   \<Longrightarrow> severityWeight s < severityWeight s'"
  by (auto simp: severityWeight_def)

lemma confidence_bounds: "0 \<le> getPredictionConfidence v \<and> getPredictionConfidence v \<le> 1"
  by (simp add: getPredictionConfidence_def split: jsval.split)

lemma confidenceMultiplier_bounds:
  "0 \<le> c \<Longrightarrow> c \<le> 1 \<Longrightarrow> 6 / 10 \<le> confidenceMultiplier c \<and> confidenceMultiplier c \<le> 1"
  by (simp add: confidenceMultiplier_def)

lemma instanceMultiplier_capped: "instanceMultiplier n = 1 + log 2 (capped n) / 3"
  by (simp add: instanceMultiplier_def capped_def)

lemma capped_mono: "m \<le> n \<Longrightarrow> capped m \<le> capped n"
  unfolding capped_def by (cases "m = 0"; cases "n = 0") (simp_all add: min_def max_def)

lemma capped_ge1: "1 \<le> capped m"
  unfolding capped_def by (simp add: min_def max_def)

lemma instanceMultiplier_one: "instanceMultiplier 1 = 1"
  by (simp add: instanceMultiplier_def)

lemma instanceMultiplier_mono: "m \<le> n \<Longrightarrow> instanceMultiplier m \<le> instanceMultiplier n"
proof -
  assume mn: "m \<le> n"
  have a: "0 < capped m" using capped_ge1 [of m] by linarith
  have b: "0 < capped n" using capped_ge1 [of n] by linarith
  have "capped m \<le> capped n" using mn by (rule capped_mono)
  then have "log 2 (capped m) \<le> log 2 (capped n)" using a b by simp
  then show ?thesis by (simp add: instanceMultiplier_capped)
qed

lemma instanceMultiplier_clamped: "20 \<le> n \<Longrightarrow> instanceMultiplier n = instanceMultiplier 20"
  by (simp add: instanceMultiplier_def min_def max_def)

lemma log2_5_lower: "9 / 4 < log 2 (5::real)"
proof -
  have "real 9 < log 2 (real 625)" by (rule less_log2_of_power) simp
  also have "log 2 (real 625) = log 2 ((5::real) ^ 4)" by simp
  also have "\<dots> = real 4 * log 2 5" by (rule log_nat_power) simp
  finally show ?thesis by simp
qed

lemma log2_5_upper: "log 2 (5::real) < 7 / 3"
proof -
  have "log 2 (real 125) < real 7" by (rule log2_of_power_less) simp_all
  moreover have "log 2 (real 125) = log 2 ((5::real) ^ 3)" by simp
  moreover have "log 2 ((5::real) ^ 3) = real 3 * log 2 5" by (rule log_nat_power) simp
  ultimately show ?thesis by simp
qed

lemma log2_20_upper: "log 2 (20::real) < 9 / 2"
proof -
  have "log 2 (real 400) < real 9" by (rule log2_of_power_less) simp_all
  moreover have "log 2 (real 400) = log 2 ((20::real) ^ 2)" by simp
  moreover have "log 2 ((20::real) ^ 2) = real 2 * log 2 20" by (rule log_nat_power) simp
  ultimately show ?thesis by simp
qed

lemma instanceMultiplier_bounds: "1 \<le> instanceMultiplier n \<and> instanceMultiplier n \<le> 5 / 2"
proof
  have "instanceMultiplier 1 \<le> instanceMultiplier (max n 1)"
    by (rule instanceMultiplier_mono) simp
  moreover have "instanceMultiplier (max n 1) = instanceMultiplier n"
    by (simp add: instanceMultiplier_def max_def)
  ultimately show "1 \<le> instanceMultiplier n" by (simp add: instanceMultiplier_one)
next
  have "instanceMultiplier n \<le> instanceMultiplier (max n 20)"
    by (rule instanceMultiplier_mono) simp
  also have "\<dots> = instanceMultiplier 20" by (rule instanceMultiplier_clamped) simp
  also have "\<dots> = 1 + log 2 20 / 3" by (simp add: instanceMultiplier_def)
  also have "\<dots> \<le> 5 / 2" using log2_20_upper by simp
  finally show "instanceMultiplier n \<le> 5 / 2" .
qed

lemma penalty_bounds: "0 < penalty v \<and> penalty v \<le> 45"
proof -
  let ?w = "severityWeight (getPredictedSeverityScore v)"
  let ?m = "instanceMultiplier (instanceCount v)"
  let ?c = "confidenceMultiplier (getPredictionConfidence v)"
  have w: "2 \<le> ?w" "?w \<le> 18" using severityWeight_bounds by simp_all
  have m: "1 \<le> ?m" "?m \<le> 5 / 2" using instanceMultiplier_bounds by simp_all
  have c: "6 / 10 \<le> ?c" "?c \<le> 1"
    using confidenceMultiplier_bounds confidence_bounds by simp_all
  have p: "penalty v = ?w * ?m * ?c" by (simp add: penalty_def)
  have w0: "0 < ?w" and m0: "0 < ?m" and c0: "0 < ?c" using w m c by linarith+
  have wm0: "0 < ?w * ?m" using w0 m0 by (rule mult_pos_pos)
  have pos: "0 < ?w * ?m * ?c" using wm0 c0 by (rule mult_pos_pos)
  have wm: "?w * ?m \<le> 18 * (5 / 2)"
  proof (rule mult_mono)
    show "?w \<le> 18" by (rule w)
    show "?m \<le> 5 / 2" by (rule m)
    show "(0::real) \<le> 18" by simp
    show "0 \<le> ?m" using m0 by simp
  qed
  have "?w * ?m * ?c \<le> 18 * (5 / 2) * 1"
  proof (rule mult_mono)
    show "?w * ?m \<le> 18 * (5 / 2)" by (rule wm)
    show "?c \<le> 1" by (rule c)
    show "(0::real) \<le> 18 * (5 / 2)" by simp
    show "0 \<le> ?c" using c0 by simp
  qed
  then show ?thesis using pos p by simp
qed

lemma totalPenalty_nonneg: "0 \<le> totalPenalty vs"
  unfolding totalPenalty_sum using penalty_bounds
  by (intro sum_list_nonneg) (auto simp: less_imp_le)

lemma rawScore_bounds: "0 < rawScore vs \<and> rawScore vs \<le> 100"
  using totalPenalty_nonneg [of vs] by (simp add: rawScore_def)

lemma score_round: "computeAccessibilityScore0to100 vs = round (rawScore vs)"
  using rawScore_bounds [of vs] by (simp add: computeAccessibilityScore0to100_def)

lemma score_range:
  "0 \<le> computeAccessibilityScore0to100 vs \<and> computeAccessibilityScore0to100 vs \<le> 100"
proof -
  have "round (0::real) \<le> round (rawScore vs)" using rawScore_bounds [of vs]
    by (intro round_mono) simp
  moreover have "round (rawScore vs) \<le> round (100::real)" using rawScore_bounds [of vs]
    by (intro round_mono) simp
  ultimately show ?thesis by (simp add: score_round)
qed

subsection \<open>Bounds on the exponential\<close>

lemma exp_lower_32: "x \<le> 32 \<Longrightarrow> (1 - x / 32) ^ 32 \<le> exp (- x :: real)"
  using exp_ge_one_minus_x_over_n_power_n [of x 32] by simp

lemma exp_upper_32: "0 \<le> x \<Longrightarrow> exp (- x :: real) \<le> 1 / (1 + x / 32) ^ 32"
proof -
  assume a: "0 \<le> x"
  have b: "(1 + x / 32) ^ 32 \<le> exp x"
    using exp_ge_one_plus_x_over_n_power_n [of 32 x] a by simp
  have c: "0 < (1 + x / 32) ^ 32" using a by (intro zero_less_power) simp
  have "exp (- x) = 1 / exp x" by (simp add: exp_minus field_simps)
  also have "\<dots> \<le> 1 / (1 + x / 32) ^ 32"
    using b c by (intro divide_left_mono) simp_all
  finally show ?thesis .
qed

subsection \<open>The example findings\<close>

lemma severity_example [simp]: "getPredictedSeverityScore (example_finding i n s c) = s"
  by (simp add: getPredictedSeverityScore_def chain_def prediction_of_def
      example_finding_def example_prediction_def)

lemma confidence_example [simp]:
  "getPredictionConfidence (example_finding i n s c) = max 0 (min 1 c)"
  by (simp add: getPredictionConfidence_def chain_def prediction_of_def
      example_finding_def example_prediction_def)

lemma instanceCount_example [simp]:
  "instanceCount (example_finding i n s c) = (if n = 0 then 1 else real n)"
  by (simp add: instanceCount_def example_finding_def)

lemma penalty_example:
  "penalty (example_finding i n s c) =
     severityWeight s * instanceMultiplier (if n = 0 then 1 else real n)
       * confidenceMultiplier (max 0 (min 1 c))"
  by (simp add: penalty_def)

lemma penalty_example_single:
  "penalty (example_finding i (Suc 0) s c)
   = severityWeight s * confidenceMultiplier (max 0 (min 1 c))"
  using penalty_example [of i 1 s c] by (simp add: instanceMultiplier_one)

lemma penalty_critical: "penalty example_critical = 18"
  unfolding example_critical_def
  by (simp add: penalty_example_single severityWeight_values confidenceMultiplier_def)

lemma penalty_minor_50: "penalty example_minor_50 = 16 / 10"
  unfolding example_minor_50_def
  by (simp add: penalty_example_single severityWeight_values confidenceMultiplier_def)

lemma penalty_minor_51: "penalty example_minor_51 = 1608 / 1000"
  unfolding example_minor_51_def
  by (simp add: penalty_example_single severityWeight_values confidenceMultiplier_def)

lemma totalPenalty_example:
  "totalPenalty example_findings = 2348 / 100 + 46 / 30 * log 2 5"
  by (simp add: totalPenalty_sum example_findings_def penalty_example severityWeight_def
      instanceMultiplier_def confidenceMultiplier_def field_simps)

lemma score_example: "computeAccessibilityScore0to100 example_findings = 66"
proof -
  let ?t = "totalPenalty example_findings"
  have t: "?t = 2348 / 100 + 46 / 30 * log 2 5" by (rule totalPenalty_example)
  have lo: "2693 / 100 \<le> ?t" using log2_5_lower by (simp add: t)
  have hi: "?t \<le> 27058 / 1000" using log2_5_upper by (simp add: t)
  have "exp (- (27058 / 65000 :: real)) \<le> exp (- ?t / 65)" using hi by simp
  moreover have "(1 - (27058 / 65000 :: real) / 32) ^ 32 \<le> exp (- (27058 / 65000))"
    by (rule exp_lower_32) simp
  moreover have "(655 / 1000 :: real) < (1 - (27058 / 65000) / 32) ^ 32"
    by (simp add: power_divide)
  ultimately have low: "655 / 1000 < exp (- ?t / 65)" by linarith
  have "exp (- ?t / 65) \<le> exp (- (2693 / 6500 :: real))" using lo by simp
  moreover have "exp (- (2693 / 6500 :: real)) \<le> 1 / (1 + (2693 / 6500) / 32) ^ 32"
    by (rule exp_upper_32) simp
  moreover have "1 / (1 + (2693 / 6500 :: real) / 32) ^ 32 < 665 / 1000"
    by (simp add: power_divide)
  ultimately have up: "exp (- ?t / 65) < 665 / 1000" by linarith
  have "round (rawScore example_findings) = 66"
    using low up by (intro round_unique) (simp_all add: rawScore_def)
  then show ?thesis by (simp add: score_round)
qed

text \<open>
  C1. For every list of enriched findings the score that
  \<open>computeAccessibilityScore0to100\<close> returns is the specification's formula
  \<open>round (clamp (100 \<times> exp (\<minus> totalPenalty / 65)) 0 100)\<close>, with the total penalty the sum over
  the findings of \<open>severityWeight \<times> instanceMultiplier \<times> confidenceMultiplier\<close>; the
  three findings of the end-to-end example score 66 and the empty list scores 100.
\<close>

theorem score_formula:
  "computeAccessibilityScore0to100 vs = spec_score vs
   \<and> computeAccessibilityScore0to100 example_findings = 66
   \<and> computeAccessibilityScore0to100 [] = 100"
  using score_spec score_example score_empty by simp

subsection \<open>The score never goes below zero, and reaches it\<close>

lemma score_single_pos: "0 < computeAccessibilityScore0to100 [v]"
proof -
  have t: "totalPenalty [v] = penalty v" by (simp add: totalPenalty_sum)
  have "1 - penalty v / 65 \<le> exp (- penalty v / 65)"
    using exp_ge_add_one_self [of "- penalty v / 65"] by simp
  moreover have "(4 / 13 :: real) \<le> 1 - penalty v / 65" using penalty_bounds [of v] by simp
  ultimately have "(30::real) \<le> rawScore [v]" by (simp add: rawScore_def t)
  then have "round (30::real) \<le> round (rawScore [v])" by (rule round_mono)
  then show ?thesis by (simp add: score_round)
qed

text \<open>
  C4 as the specification states it: the score is strictly greater than 0 for every
  finding list. It fails for 25 critical findings of one instance each and confidence 1:
  the total penalty is 450, \<open>100 \<times> exp (\<minus> 450 / 65)\<close> is below 1/2, and \<open>Math.round\<close>
  gives exactly 0.
\<close>

theorem score_zero_counterexample:
  "\<not> 0 < computeAccessibilityScore0to100 (replicate 25 example_critical)"
proof -
  let ?vs = "replicate 25 example_critical"
  have t: "totalPenalty ?vs = 450" by (simp add: totalPenalty_replicate penalty_critical)
  have "exp (- (450 / 65 :: real)) \<le> 1 / (1 + (450 / 65) / 32) ^ 32"
    by (rule exp_upper_32) simp
  moreover have "1 / (1 + (450 / 65 :: real) / 32) ^ 32 < 1 / 200"
    by (simp add: power_divide)
  ultimately have "exp (- (450 / 65 :: real)) < 1 / 200" by linarith
  then have half: "rawScore ?vs < 1 / 2" by (simp add: rawScore_def t)
  have pos: "0 < rawScore ?vs" using rawScore_bounds by simp
  have "round (rawScore ?vs) = 0" using half pos by (intro round_unique) simp_all
  then show ?thesis by (simp add: score_round)
qed

text \<open>
  C4, amended: for every finding list the unrounded score \<open>100 \<times> exp (\<minus> totalPenalty / 65)\<close>
  is strictly greater than 0 and the score is at least 0; the score of a list of a single
  finding is strictly greater than 0.
\<close>

theorem score_positive_before_rounding:
  "0 < rawScore vs \<and> 0 \<le> computeAccessibilityScore0to100 vs
   \<and> 0 < computeAccessibilityScore0to100 [v]"
  using rawScore_bounds [of vs] score_range [of vs] score_single_pos [of v] by simp

subsection \<open>Range and monotonicity\<close>

lemma score_98:
  assumes "16 / 10 \<le> totalPenalty vs" "totalPenalty vs \<le> 161 / 100"
  shows "computeAccessibilityScore0to100 vs = 98"
proof -
  let ?t = "totalPenalty vs"
  have "1 - ?t / 65 \<le> exp (- ?t / 65)"
    using exp_ge_add_one_self [of "- ?t / 65"] by simp
  then have lo: "975 / 10 < rawScore vs" using assms by (simp add: rawScore_def)
  have "exp (- ?t / 65) \<le> exp (- (16 / 650 :: real))" using assms by simp
  moreover have "exp (- (16 / 650 :: real)) \<le> 1 / (1 + (16 / 650) / 32) ^ 32"
    by (rule exp_upper_32) simp
  moreover have "1 / (1 + (16 / 650 :: real) / 32) ^ 32 < 985 / 1000"
    by (simp add: power_divide)
  ultimately have "exp (- ?t / 65) < 985 / 1000" by linarith
  then have hi: "rawScore vs < 985 / 10" by (simp add: rawScore_def)
  have "round (rawScore vs) = 98" using lo hi by (intro round_unique) simp_all
  then show ?thesis by (simp add: score_round)
qed

lemma penalty_mono:
  assumes s: "getPredictedSeverityScore v \<in> {2, 3, 4, 5}"
      "getPredictedSeverityScore v' \<in> {2, 3, 4, 5}"
    and sle: "getPredictedSeverityScore v \<le> getPredictedSeverityScore v'"
    and cle: "getPredictionConfidence v \<le> getPredictionConfidence v'"
    and n: "instanceCount v' = instanceCount v"
  shows "penalty v \<le> penalty v'"
    and "getPredictedSeverityScore v < getPredictedSeverityScore v'
         \<or> getPredictionConfidence v < getPredictionConfidence v' \<Longrightarrow> penalty v < penalty v'"
proof -
  let ?w = "severityWeight (getPredictedSeverityScore v)"
  let ?w' = "severityWeight (getPredictedSeverityScore v')"
  let ?m = "instanceMultiplier (instanceCount v)"
  let ?c = "confidenceMultiplier (getPredictionConfidence v)"
  let ?c' = "confidenceMultiplier (getPredictionConfidence v')"
  have w: "?w \<le> ?w'" using s sle by (rule severityWeight_mono)
  have c: "?c \<le> ?c'" using cle by (simp add: confidenceMultiplier_def)
  have w0: "0 < ?w" "0 < ?w'"
    using severityWeight_bounds [of "getPredictedSeverityScore v"]
      severityWeight_bounds [of "getPredictedSeverityScore v'"] by linarith+
  have m0: "0 < ?m" using instanceMultiplier_bounds [of "instanceCount v"] by linarith
  have c0: "0 < ?c" "0 < ?c'"
    using confidence_bounds [of v] confidence_bounds [of v']
    by (simp_all add: confidenceMultiplier_def)
  have p: "penalty v = ?m * (?w * ?c)" "penalty v' = ?m * (?w' * ?c')"
    by (simp_all add: penalty_def n)
  have "?w * ?c \<le> ?w' * ?c'" using w c w0 c0 by (intro mult_mono) simp_all
  then show "penalty v \<le> penalty v'" using m0 by (simp add: p)
  assume "getPredictedSeverityScore v < getPredictedSeverityScore v'
         \<or> getPredictionConfidence v < getPredictionConfidence v'"
  then have "?w * ?c < ?w' * ?c'"
  proof
    assume "getPredictedSeverityScore v < getPredictedSeverityScore v'"
    then have "?w < ?w'" using s by (intro severityWeight_strict_mono)
    then show ?thesis using c c0 w0 by (intro mult_less_le_imp_less) simp_all
  next
    assume "getPredictionConfidence v < getPredictionConfidence v'"
    then have "?c < ?c'" by (simp add: confidenceMultiplier_def)
    then show ?thesis using w c0 w0 by (intro mult_le_less_imp_less) simp_all
  qed
  then show "penalty v < penalty v'" using m0 by (simp add: p)
qed

text \<open>
  C5 as the specification states it: the score is strictly decreasing when a single
  finding's confidence increases. It fails for one minor finding of severity 2 and one
  instance: with confidence 0.5 and with confidence 0.51 the score is 98 both times.
\<close>

theorem score_not_strict_counterexample:
  "\<not> computeAccessibilityScore0to100 [example_minor_51]
      < computeAccessibilityScore0to100 [example_minor_50]"
proof -
  have "computeAccessibilityScore0to100 [example_minor_50] = 98"
    by (rule score_98) (simp_all add: totalPenalty_sum penalty_minor_50)
  moreover have "computeAccessibilityScore0to100 [example_minor_51] = 98"
    by (rule score_98) (simp_all add: totalPenalty_sum penalty_minor_51)
  ultimately show ?thesis by simp
qed

lemma penalty_mono_confidence:
  assumes n: "instanceCount v' = instanceCount v"
    and sv: "getPredictedSeverityScore v' = getPredictedSeverityScore v"
    and c: "getPredictionConfidence v < getPredictionConfidence v'"
  shows "penalty v < penalty v'"
proof -
  let ?w = "severityWeight (getPredictedSeverityScore v)"
  let ?m = "instanceMultiplier (instanceCount v)"
  have w0: "0 < ?w" using severityWeight_bounds [of "getPredictedSeverityScore v"] by linarith
  have m0: "0 < ?m" using instanceMultiplier_bounds [of "instanceCount v"] by linarith
  have wm0: "0 < ?w * ?m" using w0 m0 by (rule mult_pos_pos)
  have "confidenceMultiplier (getPredictionConfidence v)
        < confidenceMultiplier (getPredictionConfidence v')"
    using c by (simp add: confidenceMultiplier_def)
  then have "?w * ?m * confidenceMultiplier (getPredictionConfidence v)
        < ?w * ?m * confidenceMultiplier (getPredictionConfidence v')"
    using wm0 by (rule mult_strict_left_mono)
  then show ?thesis by (simp add: penalty_def n sv)
qed

lemma score_decreases:
  assumes "penalty v < penalty v'"
  shows "computeAccessibilityScore0to100 (xs @ v' # ys)
           \<le> computeAccessibilityScore0to100 (xs @ v # ys)
         \<and> rawScore (xs @ v' # ys) < rawScore (xs @ v # ys)"
proof
  have "rawScore (xs @ v' # ys) \<le> rawScore (xs @ v # ys)"
    using assms by (simp add: rawScore_def totalPenalty_append)
  then show "computeAccessibilityScore0to100 (xs @ v' # ys)
      \<le> computeAccessibilityScore0to100 (xs @ v # ys)"
    unfolding score_round by (rule round_mono)
  show "rawScore (xs @ v' # ys) < rawScore (xs @ v # ys)"
    using assms by (simp add: rawScore_def totalPenalty_append)
qed

text \<open>
  C5, amended: every finding list, empty or not, scores within [0, 100]. When a single
  finding's (clamped) confidence increases, or its severity increases within 2, 3, 4, 5,
  and everything else is held fixed, the score does not increase, and the unrounded
  score \<open>100 \<times> exp (\<minus> totalPenalty / 65)\<close>, in exact real arithmetic, strictly
  decreases.
\<close>

theorem score_range_monotone:
  "0 \<le> computeAccessibilityScore0to100 zs \<and> computeAccessibilityScore0to100 zs \<le> 100
   \<and> (instanceCount v' = instanceCount v
        \<and> getPredictedSeverityScore v' = getPredictedSeverityScore v
        \<and> getPredictionConfidence v < getPredictionConfidence v' \<longrightarrow>
      computeAccessibilityScore0to100 (xs @ v' # ys)
        \<le> computeAccessibilityScore0to100 (xs @ v # ys)
      \<and> rawScore (xs @ v' # ys) < rawScore (xs @ v # ys))
   \<and> (instanceCount u' = instanceCount u
        \<and> getPredictionConfidence u' = getPredictionConfidence u
        \<and> getPredictedSeverityScore u \<in> {2, 3, 4, 5}
        \<and> getPredictedSeverityScore u' \<in> {2, 3, 4, 5}
        \<and> getPredictedSeverityScore u < getPredictedSeverityScore u' \<longrightarrow>
      computeAccessibilityScore0to100 (xs @ u' # ys)
        \<le> computeAccessibilityScore0to100 (xs @ u # ys)
      \<and> rawScore (xs @ u' # ys) < rawScore (xs @ u # ys))"
proof (intro conjI impI)
  show "0 \<le> computeAccessibilityScore0to100 zs" using score_range by simp
  show "computeAccessibilityScore0to100 zs \<le> 100" using score_range by simp
next
  assume a: "instanceCount v' = instanceCount v
        \<and> getPredictedSeverityScore v' = getPredictedSeverityScore v
        \<and> getPredictionConfidence v < getPredictionConfidence v'"
  then have p: "penalty v < penalty v'" by (intro penalty_mono_confidence) simp_all
  show "computeAccessibilityScore0to100 (xs @ v' # ys)
        \<le> computeAccessibilityScore0to100 (xs @ v # ys)"
    using score_decreases [OF p] by simp
  show "rawScore (xs @ v' # ys) < rawScore (xs @ v # ys)"
    using score_decreases [OF p] by simp
next
  assume a: "instanceCount u' = instanceCount u
        \<and> getPredictionConfidence u' = getPredictionConfidence u
        \<and> getPredictedSeverityScore u \<in> {2, 3, 4, 5}
        \<and> getPredictedSeverityScore u' \<in> {2, 3, 4, 5}
        \<and> getPredictedSeverityScore u < getPredictedSeverityScore u'"
  have p: "penalty u < penalty u'"
  proof (rule penalty_mono(2))
    show "getPredictedSeverityScore u \<in> {2, 3, 4, 5}" using a by blast
    show "getPredictedSeverityScore u' \<in> {2, 3, 4, 5}" using a by blast
    show "getPredictedSeverityScore u \<le> getPredictedSeverityScore u'" using a by simp
    show "getPredictionConfidence u \<le> getPredictionConfidence u'" using a by simp
    show "instanceCount u' = instanceCount u" using a by blast
    show "getPredictedSeverityScore u < getPredictedSeverityScore u'
        \<or> getPredictionConfidence u < getPredictionConfidence u'" using a by blast
  qed
  show "computeAccessibilityScore0to100 (xs @ u' # ys)
        \<le> computeAccessibilityScore0to100 (xs @ u # ys)"
    using score_decreases [OF p] by simp
  show "rawScore (xs @ u' # ys) < rawScore (xs @ u # ys)"
    using score_decreases [OF p] by simp
qed

theorem score_range_monotone_witness:
  "0 \<le> computeAccessibilityScore0to100 [] \<and> computeAccessibilityScore0to100 [] \<le> 100
   \<and> computeAccessibilityScore0to100 [example_critical, example_minor_51]
       \<le> computeAccessibilityScore0to100 [example_critical, example_minor_50]
   \<and> rawScore [example_critical, example_minor_51]
       < rawScore [example_critical, example_minor_50]
   \<and> computeAccessibilityScore0to100 [example_critical, example_moderate_50]
       \<le> computeAccessibilityScore0to100 [example_critical, example_minor_50]
   \<and> rawScore [example_critical, example_moderate_50]
       < rawScore [example_critical, example_minor_50]"
  using score_range_monotone [of "[]" example_minor_51 example_minor_50 "[example_critical]" "[]"
      example_moderate_50 example_minor_50]
  by (simp add: example_minor_50_def example_minor_51_def example_moderate_50_def)

subsection \<open>The instance multiplier\<close>

text \<open>
  C7. \<open>instanceMultiplier\<close> is non-decreasing on all inputs and bounded:
  \<open>instanceMultiplier 1 = 1\<close>, \<open>instanceMultiplier k \<le> instanceMultiplier 20\<close> for every
  \<open>k \<le> 20\<close>, and \<open>instanceMultiplier j = instanceMultiplier 20\<close> for every \<open>j > 20\<close>.
\<close>

theorem instanceMultiplier_monotone_bounded:
  "(m \<le> n \<longrightarrow> instanceMultiplier m \<le> instanceMultiplier n)
   \<and> instanceMultiplier 1 = 1
   \<and> (k \<le> 20 \<longrightarrow> instanceMultiplier k \<le> instanceMultiplier 20)
   \<and> (20 < j \<longrightarrow> instanceMultiplier j = instanceMultiplier 20)"
proof (intro conjI impI)
  assume "m \<le> n" then show "instanceMultiplier m \<le> instanceMultiplier n"
    by (rule instanceMultiplier_mono)
next
  show "instanceMultiplier 1 = 1" by (rule instanceMultiplier_one)
next
  assume "k \<le> 20" then show "instanceMultiplier k \<le> instanceMultiplier 20"
    by (rule instanceMultiplier_mono)
next
  assume "20 < j" then show "instanceMultiplier j = instanceMultiplier 20"
    by (intro instanceMultiplier_clamped) simp
qed

theorem instanceMultiplier_monotone_bounded_witness:
  "instanceMultiplier 5 \<le> instanceMultiplier 7
   \<and> instanceMultiplier 1 = 1
   \<and> instanceMultiplier 3 \<le> instanceMultiplier 20
   \<and> instanceMultiplier 50 = instanceMultiplier 20"
  using instanceMultiplier_monotone_bounded [of 5 7 3 50] by simp

subsection \<open>Findings without instances\<close>

lemma penalty_no_nodes:
  "nodes v = None \<or> nodes v = Some [] \<Longrightarrow>
   instanceCount v = 1 \<and>
   penalty v = severityWeight (getPredictedSeverityScore v) * 1
                 * confidenceMultiplier (getPredictionConfidence v)"
  by (auto simp: penalty_def instanceCount_def instanceMultiplier_def)

text \<open>
  C10. A finding whose \<open>nodes\<close> list is absent or empty is not skipped by the loop of
  \<open>computeAccessibilityScore0to100\<close>: its instance count is 1, and it adds the full
  penalty \<open>severityWeight severity \<times> 1 \<times> confidenceMultiplier confidence\<close> to the total.
\<close>

theorem no_nodes_counts_as_one_instance:
  assumes "nodes v = None \<or> nodes v = Some []"
  shows "instanceCount v = 1
       \<and> totalPenalty (xs @ v # ys)
           = totalPenalty xs
             + severityWeight (getPredictedSeverityScore v) * 1
               * confidenceMultiplier (getPredictionConfidence v)
             + totalPenalty ys"
  using penalty_no_nodes [OF assms] by (simp add: totalPenalty_append)

theorem no_nodes_counts_as_one_instance_witness:
  "instanceCount example_serious_no_nodes = 1
   \<and> totalPenalty [example_critical, example_serious_no_nodes, example_critical]
       = 18 + 10 * 1 * (92 / 100) + 18"
proof -
  have n: "nodes example_serious_no_nodes = None \<or> nodes example_serious_no_nodes = Some []"
    by (simp add: example_serious_no_nodes_def)
  have s: "getPredictedSeverityScore example_serious_no_nodes = 4"
    by (simp add: example_serious_no_nodes_def getPredictedSeverityScore_def chain_def
        prediction_of_def example_finding_def example_prediction_def)
  have c: "getPredictionConfidence example_serious_no_nodes = 8 / 10"
    by (simp add: example_serious_no_nodes_def getPredictionConfidence_def chain_def
        prediction_of_def example_finding_def example_prediction_def)
  have t: "totalPenalty [example_critical] = 18"
    by (simp add: totalPenalty_sum penalty_critical)
  show ?thesis
    using no_nodes_counts_as_one_instance
      [OF n, of "[example_critical]" "[example_critical]"]
    by (simp add: s c t severityWeight_values confidenceMultiplier_def)
qed

section \<open>Properties of the enrichment\<close>

subsection \<open>Promises that settle in any order\<close>

lemma length_foldl_settle: "length (foldl (settle task) rs order) = length rs"
  by (induction order arbitrary: rs) (simp_all add: settle_def)

lemma nth_foldl_settle:
  "i < length rs \<Longrightarrow>
   foldl (settle task) rs order ! i = (if i \<in> set order then Some (task i) else rs ! i)"
proof (induction order arbitrary: rs)
  case Nil
  then show ?case by simp
next
  case (Cons k order)
  have l: "i < length (settle task rs k)" using Cons.prems by (simp add: settle_def)
  show ?case
    using Cons.IH [OF l] Cons.prems
    by (auto simp: settle_def nth_list_update)
qed

lemma those_map_Some: "those (map (Some \<circ> f) xs) = Some (map f xs)"
  by (induction xs) simp_all

lemma promise_all_permutation:
  assumes "{0..<n} \<subseteq> set order"
  shows "promise_all order n task = Some (map task [0..<n])"
proof -
  let ?rs = "foldl (settle task) (replicate n None) order"
  have "?rs = map (Some \<circ> task) [0..<n]"
  proof (rule nth_equalityI)
    show "length ?rs = length (map (Some \<circ> task) [0..<n])"
      by (simp add: length_foldl_settle)
  next
    fix i assume "i < length ?rs"
    then have i: "i < n" by (simp add: length_foldl_settle)
    moreover have "i \<in> set order" using i assms by auto
    ultimately show "?rs ! i = map (Some \<circ> task) [0..<n] ! i"
      by (simp add: nth_foldl_settle)
  qed
  then show ?thesis by (simp add: promise_all_def those_map_Some)
qed


lemma those_Some: "those xs = Some ys \<Longrightarrow> xs = map Some ys"
  by (induction xs arbitrary: ys) (auto split: option.splits)


lemma promise_all_Some:
  assumes "promise_all order n task = Some xs"
  shows "xs = map task [0..<n]"
proof -
  let ?rs = "foldl (settle task) (replicate n None) order"
  have rs: "?rs = map Some xs" using assms by (simp add: promise_all_def those_Some)
  have "length ?rs = length (map Some xs)" by (simp only: rs)
  then have len: "length xs = n" by (simp add: length_foldl_settle)
  show ?thesis
  proof (rule nth_equalityI)
    show "length xs = length (map task [0..<n])" by (simp add: len)
  next
    fix i assume "i < length xs"
    then have i: "i < n" by (simp add: len)
    have "?rs ! i = map Some xs ! i" by (simp only: rs)
    then have a: "?rs ! i = Some (xs ! i)" using i len by simp
    have b: "?rs ! i = (if i \<in> set order then Some (task i) else None)"
      using i by (simp add: nth_foldl_settle)
    have "xs ! i = task i" using a b by (simp split: if_splits)
    then show "xs ! i = map task [0..<n] ! i" using i by simp
  qed
qed

subsection \<open>The report of a scan\<close>

lemma enhanceWithML_alt:
  "enhanceWithML axe env =
     map_option (report_of axe env)
       (promise_all
          (if health_ok (ml_health env) then completion_order env
           else [0..<length (findings axe)])
          (length (findings axe))
          (\<lambda>i. enhance_one (health_ok (ml_health env)) (responses env i) (findings axe ! i)))"
  by (simp add: enhanceWithML_def findings_def report_of_def checkHealth_def Let_def
      split: option.split)

lemma enhanceWithML_Some:
  assumes "enhanceWithML axe env = Some r"
  shows "r = report_of axe env (enhanced axe env)"
proof -
  obtain evs where p: "promise_all
          (if health_ok (ml_health env) then completion_order env
           else [0..<length (findings axe)])
          (length (findings axe))
          (\<lambda>i. enhance_one (health_ok (ml_health env)) (responses env i) (findings axe ! i))
        = Some evs"
    and r: "r = report_of axe env evs"
    using assms unfolding enhanceWithML_alt by auto
  have "evs = enhanced axe env" unfolding enhanced_def by (rule promise_all_Some [OF p])
  then show ?thesis using r by simp
qed

lemma enhanceWithML_down:
  assumes "\<not> health_ok (ml_health env)"
  shows "enhanceWithML axe env = Some (report_of axe env (enhanced axe env))"
  using assms by (simp add: enhanceWithML_alt promise_all_permutation enhanced_def)

lemma enhanceWithML_up:
  assumes "health_ok (ml_health env)"
    and "{0..<length (findings axe)} \<subseteq> set (completion_order env)"
  shows "enhanceWithML axe env = Some (report_of axe env (enhanced axe env))"
  using assms by (simp add: enhanceWithML_alt promise_all_permutation enhanced_def)








subsection \<open>The example scan\<close>

lemma findings_example: "findings example_axe = example_findings"
  by (simp add: findings_def example_axe_def)

lemma length_example_findings: "length example_findings = 3"
  by (simp add: example_findings_def)

lemma order_210: "{2, 0, Suc 0} = {0..<(3::nat)}"
  by auto

lemma example_down: "\<not> health_ok (ml_health example_env_down)"
  by (simp add: example_env_down_def health_ok_def)

lemma example_up:
  "health_ok (ml_health example_env_up)"
  "{0..<length (findings example_axe)} \<subseteq> set (completion_order example_env_up)"
  by (simp_all add: example_env_up_def health_ok_def findings_example length_example_findings
      order_210 [symmetric])





subsection \<open>Fallback for one finding at a time\<close>




subsection \<open>The report and the clock\<close>

lemma impact_enhance_one [simp]: "impact (enhance_one useML net v) = impact v"
  by (simp add: enhance_one_def Let_def)

lemma map_impact_enhanced: "map impact (enhanced axe env) = map impact (findings axe)"
  unfolding enhanced_def by (rule nth_equalityI) simp_all

lemma count_impact:
  "length (filter (\<lambda>v. impact v = c) xs) = length (filter (\<lambda>s. s = c) (map impact xs))"
  by (induction xs) simp_all

lemma count_impact_enhanced:
  "length (filter (\<lambda>v. impact v = c) (enhanced axe env))
   = length (filter (\<lambda>v. impact v = c) (findings axe))"
  using map_impact_enhanced [of axe env] by (simp only: count_impact [of c])

lemma length_enhanced [simp]: "length (enhanced axe env) = length (findings axe)"
  by (simp add: enhanced_def)

lemma enhanced_now [simp]: "enhanced axe (env\<lparr>now := t\<rparr>) = enhanced axe env"
  by (simp add: enhanced_def)

lemma report_of_now:
  "report_of axe (env\<lparr>now := t\<rparr>) = (\<lambda>evs. (report_of axe env evs)\<lparr>timestamp := t\<rparr>)"
  by (rule ext) (simp add: report_of_def)

lemma enhanceWithML_now:
  "enhanceWithML axe (env\<lparr>now := t\<rparr>)
   = map_option (\<lambda>r. r\<lparr>timestamp := t\<rparr>) (enhanceWithML axe env)"
  by (simp add: enhanceWithML_alt report_of_now option.map_comp comp_def)

text \<open>
  C6 as the specification states it: computing the report twice from the same list of
  enriched findings gives identical output. It fails: the report carries
  \<open>new Date().toISOString()\<close>, so two computations five seconds apart produce the same
  enriched findings and two different reports.
\<close>

theorem report_timestamp_counterexample:
  "map_option violations (enhanceWithML example_axe example_env_down)
     = map_option violations
         (enhanceWithML example_axe (example_env_down\<lparr>now := ''2026-01-01T00:00:05.000Z''\<rparr>))
   \<and> enhanceWithML example_axe example_env_down
     \<noteq> enhanceWithML example_axe (example_env_down\<lparr>now := ''2026-01-01T00:00:05.000Z''\<rparr>)"
proof -
  have r: "enhanceWithML example_axe example_env_down
           = Some (report_of example_axe example_env_down (enhanced example_axe example_env_down))"
    by (rule enhanceWithML_down [OF example_down])
  have n: "timestamp (report_of example_axe example_env_down evs) \<noteq> ''2026-01-01T00:00:05.000Z''"
    for evs by (simp add: report_of_def example_env_down_def)
  have "report_of example_axe example_env_down evs
        \<noteq> (report_of example_axe example_env_down evs)\<lparr>timestamp := ''2026-01-01T00:00:05.000Z''\<rparr>"
    for evs
  proof
    assume "report_of example_axe example_env_down evs
        = (report_of example_axe example_env_down evs)\<lparr>timestamp := ''2026-01-01T00:00:05.000Z''\<rparr>"
    then have "timestamp (report_of example_axe example_env_down evs)
        = timestamp ((report_of example_axe example_env_down evs)
                       \<lparr>timestamp := ''2026-01-01T00:00:05.000Z''\<rparr>)"
      by (rule arg_cong)
    then show False using n [of evs] by simp
  qed
  then show ?thesis by (simp add: enhanceWithML_now r)
qed

text \<open>
  C6, amended: whenever \<open>enhanceWithML\<close> returns a report, its score, its counts and its
  average impact are functions of the list of enriched findings alone, its \<open>url\<close> is
  the one of the scan, its \<open>usingMLAPI\<close> flag is the result of the health probe and its
  \<open>timestamp\<close> is the reading of the clock; computing the report again from the same
  inputs at another time changes the \<open>timestamp\<close> and nothing else.
\<close>

theorem report_determined_up_to_timestamp:
  assumes "enhanceWithML axe env = Some r"
  shows "enhanceWithML axe (env\<lparr>now := t\<rparr>) = Some (r\<lparr>timestamp := t\<rparr>)
       \<and> timestamp r = now env
       \<and> url r = ax_url axe
       \<and> usingMLAPI r = health_ok (ml_health env)
       \<and> report_score r = computeAccessibilityScore0to100 (violations r)
       \<and> totalViolations r = length (violations r)
       \<and> criticalCount r = length (filter (\<lambda>v. impact v = ''critical'') (violations r))
       \<and> seriousCount r = length (filter (\<lambda>v. impact v = ''serious'') (violations r))
       \<and> moderateCount r = length (filter (\<lambda>v. impact v = ''moderate'') (violations r))
       \<and> avgImpact r
           = (if violations r = [] then 0
              else round ((\<Sum>v\<leftarrow>violations r. estimateUserImpactFromSeverity v)
                          / real (length (violations r))))"
proof -
  have r: "r = report_of axe env (enhanced axe env)" by (rule enhanceWithML_Some [OF assms])
  have e: "(enhanced axe env = []) = (findings axe = [])"
    using length_enhanced [of axe env] by (metis length_0_conv)
  have "enhanceWithML axe (env\<lparr>now := t\<rparr>) = Some (r\<lparr>timestamp := t\<rparr>)"
    by (simp add: enhanceWithML_now assms)
  moreover have "timestamp r = now env \<and> url r = ax_url axe
       \<and> usingMLAPI r = health_ok (ml_health env)
       \<and> report_score r = computeAccessibilityScore0to100 (violations r)
       \<and> totalViolations r = length (violations r)"
    by (simp add: r report_of_def)
  moreover have "criticalCount r = length (filter (\<lambda>v. impact v = ''critical'') (violations r))
       \<and> seriousCount r = length (filter (\<lambda>v. impact v = ''serious'') (violations r))
       \<and> moderateCount r = length (filter (\<lambda>v. impact v = ''moderate'') (violations r))"
    by (simp add: r report_of_def count_impact_enhanced)
  moreover have "avgImpact r
           = (if violations r = [] then 0
              else round ((\<Sum>v\<leftarrow>violations r. estimateUserImpactFromSeverity v)
                          / real (length (violations r))))"
    by (simp add: r report_of_def e foldl_add_sum_list)
  ultimately show ?thesis by simp
qed

theorem report_determined_up_to_timestamp_witness:
  "case enhanceWithML example_axe example_env_up of
     None \<Rightarrow> False
   | Some r \<Rightarrow>
       enhanceWithML example_axe (example_env_up\<lparr>now := ''2026-01-01T00:00:05.000Z''\<rparr>)
         = Some (r\<lparr>timestamp := ''2026-01-01T00:00:05.000Z''\<rparr>)
       \<and> timestamp r = ''2026-01-01T00:00:00.000Z''
       \<and> url r = ''https://example.org/''
       \<and> usingMLAPI r
       \<and> report_score r = computeAccessibilityScore0to100 (violations r)
       \<and> totalViolations r = length (violations r)
       \<and> criticalCount r = length (filter (\<lambda>v. impact v = ''critical'') (violations r))
       \<and> seriousCount r = length (filter (\<lambda>v. impact v = ''serious'') (violations r))
       \<and> moderateCount r = length (filter (\<lambda>v. impact v = ''moderate'') (violations r))
       \<and> avgImpact r
           = (if violations r = [] then 0
              else round ((\<Sum>v\<leftarrow>violations r. estimateUserImpactFromSeverity v)
                          / real (length (violations r))))"
proof -
  obtain r where r: "enhanceWithML example_axe example_env_up = Some r"
    using enhanceWithML_up [OF example_up] by blast
  have n: "now example_env_up = ''2026-01-01T00:00:00.000Z''"
    "ax_url example_axe = ''https://example.org/''"
    by (simp_all add: example_env_up_def example_axe_def)
  show ?thesis
    using report_determined_up_to_timestamp [OF r, of "''2026-01-01T00:00:05.000Z''"]
      example_up(1) n
    by (simp add: r)
qed

section \<open>Properties of the overlay\<close>

subsection \<open>The accordion\<close>

lemma filter_eq_upt: "b < n \<Longrightarrow> filter (\<lambda>i. i = b) [0..<n] = [b]"
  by (induction n) (auto simp: less_Suc_eq)

lemma filter_upt_cong:
  "(\<And>i. i < n \<Longrightarrow> P i = Q i) \<Longrightarrow> filter P [0..<n] = filter Q [0..<n]"
  by (rule filter_cong) simp_all

lemma length_click_entry [simp]: "length (click_entry idx h es) = length es"
  by (simp add: click_entry_def)

lemma isExpanded_collapse [simp]: "\<not> isExpanded (collapse e)"
  by (simp add: isExpanded_def collapse_def)

lemma click_entry_expand:
  assumes "b < length es" "\<not> isExpanded (es ! b)" "i < length es"
  shows "isExpanded (click_entry b h es ! i) = (i = b \<and> h \<noteq> 0)"
  using assms by (auto simp: click_entry_def nth_list_update isExpanded_def collapse_def)

lemma click_entry_collapse:
  assumes "b < length es" "isExpanded (es ! b)" "i < length es"
  shows "isExpanded (click_entry b h es ! i) = (i \<noteq> b \<and> isExpanded (es ! i))"
  using assms by (auto simp: click_entry_def nth_list_update)

lemma expanded_in_click_expand:
  assumes "b < length es" "\<not> isExpanded (es ! b)"
  shows "expanded_in (click_entry b h es) = (if h = 0 then [] else [b])"
proof -
  have "filter (\<lambda>i. isExpanded (click_entry b h es ! i)) [0..<length es]
        = filter (\<lambda>i. i = b \<and> h \<noteq> 0) [0..<length es]"
    by (rule filter_upt_cong) (simp add: click_entry_expand [OF assms])
  also have "\<dots> = (if h = 0 then [] else [b])"
    using assms(1) by (simp add: filter_eq_upt)
  finally show ?thesis by (simp add: expanded_in_def)
qed

lemma expanded_in_click_collapse:
  assumes "b < length es" "isExpanded (es ! b)"
  shows "expanded_in (click_entry b h es) = filter (\<lambda>i. i \<noteq> b) (expanded_in es)"
proof -
  have "filter (\<lambda>i. isExpanded (click_entry b h es ! i)) [0..<length es]
        = filter (\<lambda>i. i \<noteq> b \<and> isExpanded (es ! i)) [0..<length es]"
    by (rule filter_upt_cong) (simp add: click_entry_collapse [OF assms])
  then show ?thesis by (simp add: expanded_in_def conj_commute)
qed

lemma click_entry_single_open:
  "length (expanded_in es) \<le> 1 \<Longrightarrow> length (expanded_in (click_entry b h es)) \<le> 1"
proof (cases "b < length es")
  case False
  assume "length (expanded_in es) \<le> 1"
  with False show ?thesis by (simp add: click_entry_def)
next
  case True
  assume inv: "length (expanded_in es) \<le> 1"
  show ?thesis
  proof (cases "isExpanded (es ! b)")
    case True
    have "length (filter (\<lambda>i. i \<noteq> b) (expanded_in es)) \<le> 1"
      using inv length_filter_le [of "\<lambda>i. i \<noteq> b" "expanded_in es"] by linarith
    then show ?thesis by (simp only: expanded_in_click_collapse [OF \<open>b < length es\<close> True])
  next
    case False
    then show ?thesis using expanded_in_click_expand [OF True False] by simp
  qed
qed

lemma expanded_expanded_in: "expanded s = expanded_in (entries_of s)"
  by (simp add: expanded_def expanded_in_def)

lemma entries_of_click_header: "entries_of (click_header b h s) = click_entry b h (entries_of s)"
  by (simp add: click_header_def entries_of_def click_entry_def split: panel_list.split)

lemma click_header_single_open:
  "length (expanded s) \<le> 1 \<Longrightarrow> length (expanded (click_header b h s)) \<le> 1"
  unfolding expanded_expanded_in entries_of_click_header by (rule click_entry_single_open)

lemma click_headers_single_open:
  "length (expanded s) \<le> 1 \<Longrightarrow> length (expanded (click_headers cs s)) \<le> 1"
proof (induction cs arbitrary: s)
  case Nil
  then show ?case by (simp add: click_headers_def)
next
  case (Cons c cs)
  obtain idx h where c: "c = (idx, h)" by (cases c)
  have "length (expanded (click_header idx h s)) \<le> 1"
    using Cons.prems by (rule click_header_single_open)
  then have "length (expanded (click_headers cs (click_header idx h s))) \<le> 1"
    by (rule Cons.IH)
  then show ?case by (simp add: click_headers_def c)
qed

lemma expanded_in_new: "expanded_in (map new_entry vs) = []"
  by (simp add: expanded_in_def new_entry_def isExpanded_def)

lemma click_header_switch:
  assumes "expanded s = [a]" "a \<noteq> b" "b < length (entries_of s)" "0 < h"
  shows "expanded (click_header b h s) = [b]"
proof -
  have "b \<notin> set (expanded s)" using assms by simp
  then have "\<not> isExpanded (entries_of s ! b)" using assms(3) by (simp add: expanded_def)
  then show ?thesis
    using expanded_in_click_expand [OF assms(3), of h] assms(4)
    by (simp add: expanded_expanded_in entries_of_click_header)
qed

subsection \<open>Highlights of an activation\<close>

lemma highlights_listeners [simp]:
  "highlights (s\<lparr>window_listeners := w\<rparr>) = highlights s"
  "highlights (s\<lparr>accessGuruListenersAdded := b\<rparr>) = highlights s"
  by (simp_all add: highlights_def)

lemma map_filter_append:
  "List.map_filter f (xs @ ys) = List.map_filter f xs @ List.map_filter f ys"
  by (simp add: List.map_filter_def)

lemma highlight_node_anchors:
  "map anchored (highlights (highlight_node pg v s nd))
     = map anchored (highlights s)
       @ (if SEVERITY_COLORS (impact v) = None then []
          else case resolves pg nd of None \<Rightarrow> [] | Some el \<Rightarrow> [Some el])"
  by (auto simp: highlight_node_def resolves_def createHighlight_def highlights_def Let_def
      split: list.split query_result.split option.split)

lemma highlight_nodes_anchors:
  "map anchored (highlights (foldl (highlight_node pg v) s ns))
     = map anchored (highlights s)
       @ (if SEVERITY_COLORS (impact v) = None then []
          else map Some (List.map_filter (resolves pg) ns))"
proof (induction ns arbitrary: s)
  case Nil
  then show ?case by (simp add: List.map_filter_simps)
next
  case (Cons nd ns)
  show ?case
    by (simp add: Cons.IH highlight_node_anchors List.map_filter_simps split: option.split)
qed

lemma highlight_violation_anchors:
  "map anchored (highlights (highlight_violation pg s v))
     = map anchored (highlights s) @ map Some (highlightable pg v)"
  using highlight_nodes_anchors [of pg v s]
  by (simp add: highlight_violation_def highlightable_def instances_def List.map_filter_simps
      split: option.split)

lemma highlight_violations_anchors:
  "map anchored (highlights (foldl (highlight_violation pg) s vs))
     = map anchored (highlights s) @ map Some (concat (map (highlightable pg) vs))"
  by (induction vs arbitrary: s) (simp_all add: highlight_violation_anchors)

lemma grown_refl: "grown s s"
  by (simp add: grown_def)

lemma grown_trans:
  assumes "grown s s'" "grown s' s''"
  shows "grown s s''"
proof -
  obtain n1 where 1: "body s' = body s @ n1" "overlayElements s' = overlayElements s @ n1"
    "\<forall>n\<in>set n1. fresh s \<le> node_id n \<and> node_id n < fresh s'" "fresh s \<le> fresh s'"
    "s' = s\<lparr>body := body s', overlayElements := overlayElements s', fresh := fresh s'\<rparr>"
    using assms(1) unfolding grown_def by blast
  obtain n2 where 2: "body s'' = body s' @ n2" "overlayElements s'' = overlayElements s' @ n2"
    "\<forall>n\<in>set n2. fresh s' \<le> node_id n \<and> node_id n < fresh s''" "fresh s' \<le> fresh s''"
    "s'' = s'\<lparr>body := body s'', overlayElements := overlayElements s'', fresh := fresh s''\<rparr>"
    using assms(2) unfolding grown_def by blast
  have a: "body s'' = body s @ (n1 @ n2)" using 1(1) 2(1) by simp
  have b: "overlayElements s'' = overlayElements s @ (n1 @ n2)" using 1(2) 2(2) by simp
  have c: "\<forall>n\<in>set (n1 @ n2). fresh s \<le> node_id n \<and> node_id n < fresh s''"
    using 1(3,4) 2(3,4) by fastforce
  have d: "fresh s \<le> fresh s''" using 1(4) 2(4) by simp
  have e: "s'' = s\<lparr>body := body s'', overlayElements := overlayElements s'', fresh := fresh s''\<rparr>"
    by (subst 2(5), subst 1(5)) simp
  show ?thesis unfolding grown_def using a b c d e by blast
qed

lemma grown_createHighlight:
  "createHighlight el v nd s = Some s' \<Longrightarrow> grown s s'"
  unfolding grown_def createHighlight_def
  by (auto simp: Let_def split: option.splits
      intro!: exI [of _ "[\<lparr>node_id = fresh s, kind = Highlight, data_selector = d, anchored = Some el, border_color = c\<rparr>, \<lparr>node_id = Suc (fresh s), kind = InfoIcon, data_selector = [], anchored = None, border_color = c\<rparr>]" for d c])

lemma grown_highlight_node: "grown s (highlight_node pg v s nd)"
  by (auto simp: highlight_node_def grown_refl grown_createHighlight
      split: list.split query_result.split option.split)

lemma grown_highlight_nodes: "grown s (foldl (highlight_node pg v) s ns)"
proof (induction ns arbitrary: s)
  case Nil
  then show ?case by (simp add: grown_refl)
next
  case (Cons nd ns)
  show ?case using grown_trans [OF grown_highlight_node Cons.IH] by simp
qed

lemma grown_highlight_violation: "grown s (highlight_violation pg s v)"
  by (simp add: highlight_violation_def grown_refl grown_highlight_nodes split: option.split)

lemma grown_highlight_violations: "grown s (foldl (highlight_violation pg) s vs)"
proof (induction vs arbitrary: s)
  case Nil
  then show ?case by (simp add: grown_refl)
next
  case (Cons v vs)
  show ?case using grown_trans [OF grown_highlight_violation Cons.IH] by simp
qed

subsection \<open>Activation and deactivation\<close>

lemma foldl_remove:
  "foldl (\<lambda>b el. if has_parent el b then remove_child el b else b) b els
   = filter (\<lambda>n. node_id n \<notin> node_id ` set els) b"
proof (induction els arbitrary: b)
  case Nil
  then show ?case by simp
next
  case (Cons el els)
  have "\<not> has_parent el b \<Longrightarrow> filter (\<lambda>n. node_id n \<noteq> node_id el) b = b"
    unfolding has_parent_def by (rule filter_True) (metis imageI)
  then have "(if has_parent el b then remove_child el b else b) = remove_child el b"
    by (simp add: remove_child_def)
  then show ?case by (simp add: Cons.IH remove_child_def conj_commute)
qed

lemma start_clean:
  assumes "clean s"
  shows "populateViolationsList vs (createSidePanel (s\<lparr>currentViolations := vs\<rparr>))
     = s\<lparr>currentViolations := vs, body := [new_node (fresh s) SidePanel],
         sidePanel := Some (new_node (fresh s) SidePanel), panel_collapsed := True,
         violations_list := listing vs, fresh := Suc (fresh s)\<rparr>"
  using assms
  by (simp add: clean_def createSidePanel_def populateViolationsList_def panel_in_document_def
      Let_def new_node_def listing_def)

lemma activation_from_clean:
  assumes "clean s" "vs \<noteq> []"
  shows "\<exists>new k. highlightViolations pg vs s
     = s\<lparr>currentViolations := vs, body := new_node (fresh s) SidePanel # new,
         overlayElements := new,
         sidePanel := Some (new_node (fresh s) SidePanel), panel_collapsed := True,
         violations_list := listing vs, fresh := k,
         window_listeners :=
           (if accessGuruListenersAdded s then window_listeners s
            else addEventListener (''scroll'', ''handleScroll'', True)
                   (addEventListener (''resize'', ''handleResize'', False) (window_listeners s))),
         accessGuruListenersAdded := True\<rparr>
     \<and> (\<forall>n\<in>set new. fresh s < node_id n \<and> node_id n < k) \<and> fresh s < k"
proof -
  let ?st = "populateViolationsList vs (createSidePanel (s\<lparr>currentViolations := vs\<rparr>))"
  have st: "?st = s\<lparr>currentViolations := vs, body := [new_node (fresh s) SidePanel],
         sidePanel := Some (new_node (fresh s) SidePanel), panel_collapsed := True,
         violations_list := listing vs, fresh := Suc (fresh s)\<rparr>"
    by (rule start_clean [OF assms(1)])
  let ?s4 = "foldl (highlight_violation pg) ?st vs"
  have "grown ?st ?s4" by (rule grown_highlight_violations)
  then obtain new where g: "body ?s4 = body ?st @ new" "overlayElements ?s4 = overlayElements ?st @ new"
    "\<forall>n\<in>set new. fresh ?st \<le> node_id n \<and> node_id n < fresh ?s4" "fresh ?st \<le> fresh ?s4"
    "?s4 = ?st\<lparr>body := body ?s4, overlayElements := overlayElements ?s4, fresh := fresh ?s4\<rparr>"
    unfolding grown_def by blast
  define k where "k = fresh ?s4"
  have oe: "overlayElements ?st = []" using assms(1) by (simp add: st clean_def)
  have bd: "body ?st = [new_node (fresh s) SidePanel]" by (simp add: st)
  have "?s4 = ?st\<lparr>body := new_node (fresh s) SidePanel # new, overlayElements := new, fresh := k\<rparr>"
    using g(5) by (simp add: g(1,2) oe bd k_def)
  then have s4: "?s4 = s\<lparr>currentViolations := vs, body := new_node (fresh s) SidePanel # new,
         overlayElements := new,
         sidePanel := Some (new_node (fresh s) SidePanel), panel_collapsed := True,
         violations_list := listing vs, fresh := k\<rparr>"
    by (simp add: st)
  have fr: "fresh ?st = Suc (fresh s)" by (simp add: st)
  have ids: "\<forall>n\<in>set new. fresh s < node_id n \<and> node_id n < k"
    using g(3) fr by (auto simp: k_def)
  have k: "fresh s < k" using g(4) fr by (simp add: k_def)
  have "highlightViolations pg vs s
     = s\<lparr>currentViolations := vs, body := new_node (fresh s) SidePanel # new,
         overlayElements := new,
         sidePanel := Some (new_node (fresh s) SidePanel), panel_collapsed := True,
         violations_list := listing vs, fresh := k,
         window_listeners :=
           (if accessGuruListenersAdded s then window_listeners s
            else addEventListener (''scroll'', ''handleScroll'', True)
                   (addEventListener (''resize'', ''handleResize'', False) (window_listeners s))),
         accessGuruListenersAdded := True\<rparr>"
    using assms(2) by (cases "accessGuruListenersAdded s") (simp_all add: highlightViolations_def Let_def s4)
  then show ?thesis using ids k by blast
qed

lemma anchors_from_clean:
  assumes "clean s" "vs \<noteq> []"
  shows "map anchored (highlights (highlightViolations pg vs s))
         = map Some (concat (map (highlightable pg) vs))"
proof -
  let ?st = "populateViolationsList vs (createSidePanel (s\<lparr>currentViolations := vs\<rparr>))"
  have "highlights ?st = []"
    unfolding start_clean [OF assms(1)] by (simp add: highlights_def new_node_def)
  then show ?thesis
    using assms(2) by (simp add: highlightViolations_def Let_def highlight_violations_anchors)
qed

lemma remove_tracked:
  assumes b: "body s = p # new @ (case tooltipElement s of None \<Rightarrow> [] | Some t \<Rightarrow> [t])"
    and oe: "overlayElements s = new"
    and sp: "sidePanel s = Some p"
    and ids: "\<forall>n\<in>set new. node_id p < node_id n \<and> node_id n < k"
    and tid: "\<forall>t. tooltipElement s = Some t \<longrightarrow> node_id t = k"
    and pk: "node_id p < k"
  shows "removeAllOverlays s
         = s\<lparr>body := [], overlayElements := [], tooltipElement := None, sidePanel := None,
             accessGuruListenersAdded := False, accessGuruOverlayInjected := False\<rparr>"
proof -
  have p: "node_id p \<notin> node_id ` set new" using ids by fastforce
  have new: "filter (\<lambda>n. node_id n \<notin> node_id ` set new) new = []"
    by (simp add: filter_empty_conv)
  show ?thesis
  proof (cases "tooltipElement s")
    case None
    have "filter (\<lambda>n. node_id n \<notin> node_id ` set new) (body s) = [p]"
      using p new by (simp add: b None)
    then show ?thesis
      unfolding removeAllOverlays_def foldl_remove oe
      by (simp add: Let_def None sp has_parent_def remove_child_def)
  next
    case (Some t)
    have tk: "node_id t = k" using tid Some by simp
    have t: "node_id t \<notin> node_id ` set new" using ids tk by fastforce
    have tp: "node_id t \<noteq> node_id p" using pk tk by simp
    have "filter (\<lambda>n. node_id n \<notin> node_id ` set new) (body s) = [p, t]"
      using p t new by (simp add: b Some)
    then show ?thesis
      using tp unfolding removeAllOverlays_def foldl_remove oe
      by (simp add: Let_def Some sp has_parent_def remove_child_def)
  qed
qed

lemma clean_injected: "clean injected"
  by (simp add: clean_def injected_def)

text \<open>
  C8. After an activation on a freshly injected page, with or without a hover that
  creates the tooltip, \<open>removeAllOverlays\<close> leaves no node of the overlay in the
  document, clears the three variables and resets both flags, and a second activation
  on the same findings creates highlights for the same elements as the first. The
  listeners on \<open>window\<close> are not detached: the resize and the scroll listener are still
  registered after \<open>removeAllOverlays\<close>, although \<open>accessGuruListenersAdded\<close> is
  false again; the second activation registers the same two handlers, which leaves the
  list as it is.
\<close>

theorem deactivation_keeps_window_listeners:
  assumes "vs \<noteq> []"
  shows "body (removeAllOverlays (hover hovered (highlightViolations pg vs injected))) = []
     \<and> overlayElements (removeAllOverlays (hover hovered (highlightViolations pg vs injected))) = []
     \<and> tooltipElement (removeAllOverlays (hover hovered (highlightViolations pg vs injected))) = None
     \<and> sidePanel (removeAllOverlays (hover hovered (highlightViolations pg vs injected))) = None
     \<and> \<not> accessGuruListenersAdded (removeAllOverlays (hover hovered (highlightViolations pg vs injected)))
     \<and> \<not> accessGuruOverlayInjected (removeAllOverlays (hover hovered (highlightViolations pg vs injected)))
     \<and> window_listeners (removeAllOverlays (hover hovered (highlightViolations pg vs injected)))
         = [(''resize'', ''handleResize'', False), (''scroll'', ''handleScroll'', True)]
     \<and> map anchored (highlights (highlightViolations pg vs
           (removeAllOverlays (hover hovered (highlightViolations pg vs injected)))))
         = map anchored (highlights (highlightViolations pg vs injected))
     \<and> window_listeners (highlightViolations pg vs
           (removeAllOverlays (hover hovered (highlightViolations pg vs injected))))
         = [(''resize'', ''handleResize'', False), (''scroll'', ''handleScroll'', True)]"
proof -
  let ?s1 = "highlightViolations pg vs injected"
  let ?h = "hover hovered ?s1"
  let ?s2 = "removeAllOverlays ?h"
  let ?l = "[(''resize'', ''handleResize'', False), (''scroll'', ''handleScroll'', True)]"
  obtain new k where s1: "?s1 = injected\<lparr>currentViolations := vs, body := new_node (fresh injected) SidePanel # new,
         overlayElements := new,
         sidePanel := Some (new_node (fresh injected) SidePanel), panel_collapsed := True,
         violations_list := listing vs, fresh := k,
         window_listeners :=
           (if accessGuruListenersAdded injected then window_listeners injected
            else addEventListener (''scroll'', ''handleScroll'', True)
                   (addEventListener (''resize'', ''handleResize'', False) (window_listeners injected))),
         accessGuruListenersAdded := True\<rparr>"
    and ids: "\<forall>n\<in>set new. fresh injected < node_id n \<and> node_id n < k" and k: "fresh injected < k"
    using activation_from_clean [OF clean_injected assms, of pg] by blast
  have wl: "window_listeners ?s1 = ?l"
    by (subst s1) (simp add: injected_def addEventListener_def)
  have f1: "fresh ?s1 = k" "tooltipElement ?s1 = None" "overlayElements ?s1 = new"
    "sidePanel ?s1 = Some (new_node 0 SidePanel)" "body ?s1 = new_node 0 SidePanel # new"
    by (subst s1, simp add: injected_def)+
  have ids0: "\<forall>n\<in>set new. node_id (new_node 0 SidePanel) < node_id n \<and> node_id n < k"
    using ids by (simp add: injected_def new_node_def)
  have k0: "node_id (new_node 0 SidePanel) < k" using k by (simp add: injected_def new_node_def)
  have h: "body ?h = new_node 0 SidePanel # new @ (case tooltipElement ?h of None \<Rightarrow> [] | Some t \<Rightarrow> [t])"
    "overlayElements ?h = new" "sidePanel ?h = Some (new_node 0 SidePanel)"
    "\<forall>t. tooltipElement ?h = Some t \<longrightarrow> node_id t = k"
    "window_listeners ?h = ?l"
    by (simp_all add: hover_def createTooltip_def f1 wl Let_def new_node_def)
  have s2: "?s2 = ?h\<lparr>body := [], overlayElements := [], tooltipElement := None, sidePanel := None,
             accessGuruListenersAdded := False, accessGuruOverlayInjected := False\<rparr>"
    by (rule remove_tracked [OF h(1) h(2) h(3) ids0 h(4) k0])
  have c2: "clean ?s2" by (subst s2) (simp add: clean_def)
  have w2: "window_listeners ?s2 = ?l" by (subst s2) (simp add: h(5))
  have a2: "\<not> accessGuruListenersAdded ?s2" by (subst s2) simp
  obtain new' k' where s3: "highlightViolations pg vs ?s2 = ?s2\<lparr>currentViolations := vs, body := new_node (fresh ?s2) SidePanel # new',
         overlayElements := new',
         sidePanel := Some (new_node (fresh ?s2) SidePanel), panel_collapsed := True,
         violations_list := listing vs, fresh := k',
         window_listeners :=
           (if accessGuruListenersAdded ?s2 then window_listeners ?s2
            else addEventListener (''scroll'', ''handleScroll'', True)
                   (addEventListener (''resize'', ''handleResize'', False) (window_listeners ?s2))),
         accessGuruListenersAdded := True\<rparr>"
    using activation_from_clean [OF c2 assms, of pg] by blast
  have w3: "window_listeners (highlightViolations pg vs ?s2) = ?l"
    by (subst s3) (simp add: a2 w2 addEventListener_def)
  have an: "map anchored (highlights (highlightViolations pg vs ?s2))
         = map anchored (highlights ?s1)"
    by (simp add: anchors_from_clean [OF c2 assms] anchors_from_clean [OF clean_injected assms])
  have parts: "body ?s2 = []" "overlayElements ?s2 = []" "tooltipElement ?s2 = None"
    "sidePanel ?s2 = None" "\<not> accessGuruOverlayInjected ?s2"
    by (subst s2, simp)+
  show ?thesis using parts a2 w2 an w3 by simp
qed

subsection \<open>The states that events produce\<close>

























lemma highlights_frame [simp]:
  "highlights (s\<lparr>currentViolations := vs\<rparr>) = highlights s"
  "highlights (s\<lparr>violations_list := l\<rparr>) = highlights s"
  "highlights (createSidePanel s) = highlights s"
  "highlights (populateViolationsList vs s) = highlights s"
  "highlights (createTooltip s) = highlights s"
  "highlights (click_header idx h s) = highlights s"
  by (simp_all add: highlights_def createSidePanel_def populateViolationsList_def
      createTooltip_def click_header_def Let_def new_node_def
      split: option.split panel_list.split)


subsection \<open>Only the first selector\<close>

lemma listing_valid:
  assumes "\<forall>v\<in>set vs. SEVERITY_COLORS (impact v) \<noteq> None"
  shows "listing vs = Entries (map new_entry vs)"
  using assms by (simp add: listing_def list_ex_iff)

lemma violations_list_from_clean:
  assumes "clean s" "vs \<noteq> []"
  shows "violations_list (highlightViolations pg vs s) = listing vs"
proof -
  obtain new k where "highlightViolations pg vs s
     = s\<lparr>currentViolations := vs, body := new_node (fresh s) SidePanel # new,
         overlayElements := new,
         sidePanel := Some (new_node (fresh s) SidePanel), panel_collapsed := True,
         violations_list := listing vs, fresh := k,
         window_listeners :=
           (if accessGuruListenersAdded s then window_listeners s
            else addEventListener (''scroll'', ''handleScroll'', True)
                   (addEventListener (''resize'', ''handleResize'', False) (window_listeners s))),
         accessGuruListenersAdded := True\<rparr>"
    using activation_from_clean [OF assms, of pg] by blast
  then show ?thesis by simp
qed



lemma example_impacts:
  "SEVERITY_COLORS (impact example_two_selectors) \<noteq> None"
  "SEVERITY_COLORS (impact example_resolvable) \<noteq> None"
  by (simp_all add: example_two_selectors_def example_resolvable_def example_finding_def
      SEVERITY_COLORS_def)

lemma example_instances:
  "instances example_two_selectors = [\<lparr>target = Some [''#gone'', ''#main''], html = Some ''<main>''\<rparr>]"
  "instances example_resolvable = [\<lparr>target = Some [''#main''], html = Some ''<main>''\<rparr>,
                       \<lparr>target = Some [''#gone''], html = Some ''<div>''\<rparr>]"
  by (simp_all add: example_two_selectors_def example_resolvable_def instances_def)

lemma example_resolves:
  "resolves example_page \<lparr>target = Some [''#gone'', ''#main''], html = h\<rparr> = None"
  "resolves example_page \<lparr>target = Some [''#main''], html = h\<rparr> = Some 7"
  "resolves example_page \<lparr>target = Some [''#gone''], html = h\<rparr> = None"
  by (simp_all add: resolves_def target_of_def example_page_def)




theorem deactivation_keeps_window_listeners_witness:
  "body (removeAllOverlays (hover True (highlightViolations example_page [example_resolvable] injected))) = []
   \<and> \<not> accessGuruListenersAdded
         (removeAllOverlays (hover True (highlightViolations example_page [example_resolvable] injected)))
   \<and> window_listeners
         (removeAllOverlays (hover True (highlightViolations example_page [example_resolvable] injected)))
       = [(''resize'', ''handleResize'', False), (''scroll'', ''handleScroll'', True)]
   \<and> map anchored (highlights (highlightViolations example_page [example_resolvable]
         (removeAllOverlays (hover True (highlightViolations example_page [example_resolvable] injected)))))
       = [Some 7]"
proof -
  have "map anchored (highlights (highlightViolations example_page [example_resolvable] injected))
        = map Some (concat (map (highlightable example_page) [example_resolvable]))"
    by (rule anchors_from_clean [OF clean_injected]) simp
  then have "map anchored (highlights (highlightViolations example_page [example_resolvable] injected))
        = [Some 7]"
    by (simp add: highlightable_def example_impacts example_instances example_resolves
        List.map_filter_simps)
  then show ?thesis
    using deactivation_keeps_window_listeners [of "[example_resolvable]" True example_page]
    by simp
qed

subsection \<open>A single open entry\<close>

lemma expanded_activated: "expanded (highlightViolations pg vs injected) = []"
proof (cases "vs = []")
  case True
  then show ?thesis
    by (simp add: highlightViolations_def expanded_def entries_of_def injected_def)
next
  case False
  have "expanded_in (entries_of (highlightViolations pg vs injected)) = []"
    using expanded_in_new [of vs]
    by (simp add: entries_of_def violations_list_from_clean [OF clean_injected False] listing_def
        expanded_in_def)
  then show ?thesis by (simp add: expanded_expanded_in)
qed

text \<open>
  C9. At most one entry of the accordion is expanded: after an activation and any
  sequence of clicks on accordion headers, and after a click on a header in any state
  with at most one expanded entry. A click on the header of entry \<open>b\<close> while another
  entry \<open>a\<close> is the expanded one leaves \<open>b\<close> as the only expanded entry, provided the
  body of \<open>b\<close> has a positive scroll height.
\<close>

theorem accordion_single_open:
  "length (expanded (click_headers cs (highlightViolations pg vs injected))) \<le> 1
   \<and> (length (expanded s) \<le> 1 \<longrightarrow> length (expanded (click_header b h s)) \<le> 1)
   \<and> (expanded s = [a] \<and> a \<noteq> b \<and> b < length (entries_of s) \<and> 0 < h
        \<longrightarrow> expanded (click_header b h s) = [b])"
proof (intro conjI impI)
  show "length (expanded (click_headers cs (highlightViolations pg vs injected))) \<le> 1"
    by (rule click_headers_single_open) (simp add: expanded_activated)
next
  assume "length (expanded s) \<le> 1"
  then show "length (expanded (click_header b h s)) \<le> 1" by (rule click_header_single_open)
next
  assume "expanded s = [a] \<and> a \<noteq> b \<and> b < length (entries_of s) \<and> 0 < h"
  then show "expanded (click_header b h s) = [b]" using click_header_switch by blast
qed

lemma example_findings_impacts: "\<forall>v\<in>set example_findings. SEVERITY_COLORS (impact v) \<noteq> None"
  by (simp add: example_findings_def example_finding_def SEVERITY_COLORS_def)

theorem accordion_single_open_witness:
  "length (expanded (click_headers [(0, 120), (2, 80)]
             (highlightViolations example_page example_findings injected))) \<le> 1
   \<and> expanded (click_header 0 120 (highlightViolations example_page example_findings injected)) = [0]
   \<and> length (expanded (click_header 2 80
        (click_header 0 120 (highlightViolations example_page example_findings injected)))) \<le> 1
   \<and> expanded (click_header 2 80
        (click_header 0 120 (highlightViolations example_page example_findings injected))) = [2]"
proof -
  let ?s0 = "highlightViolations example_page example_findings injected"
  have ne: "example_findings \<noteq> []" by (simp add: example_findings_def)
  have e0: "entries_of ?s0 = map new_entry example_findings"
    by (simp add: entries_of_def violations_list_from_clean [OF clean_injected ne]
        listing_valid [OF example_findings_impacts])
  have l0: "length (entries_of ?s0) = 3" unfolding e0 by (simp add: example_findings_def)
  have "\<not> isExpanded (entries_of ?s0 ! 0)"
    unfolding e0 by (simp add: example_findings_def new_entry_def isExpanded_def)
  then have a: "expanded (click_header 0 120 ?s0) = [0]"
    using expanded_in_click_expand [of 0 "entries_of ?s0" 120] l0
    by (simp add: expanded_expanded_in entries_of_click_header)
  have b: "2 < length (entries_of (click_header 0 120 ?s0))"
    by (simp add: entries_of_click_header l0)
  show ?thesis
    using accordion_single_open [of "[(0, 120), (2, 80)]" example_page example_findings
        "click_header 0 120 ?s0" 2 80 0] a b
    by simp
qed

end
